theory Spec2Isabelle
  imports Complex_Main "HOL-Library.AList" "HOL-Library.Word"
begin

section \<open>Values, exceptions and configuration\<close>

text \<open>
  The service in \<^verbatim>\<open>api/main.py\<close> keeps every job in the module-level dictionary
  \<^verbatim>\<open>JOBS\<close>, whose values are themselves dictionaries from field names to Python
  values. A dictionary is an association list in insertion order; assignment to a key is
  \<open>AList.update\<close> (replace in place, or append), lookup is \<open>map_of\<close>.
\<close>

datatype val = VNone | VBool bool | VInt int | VFloat real | VStr string

type_synonym pydict = "(string \<times> val) list"

type_synonym job = pydict

type_synonym bytes = "8 word list"

text \<open>A raised exception: \<^verbatim>\<open>type(e).__name__\<close> and \<^verbatim>\<open>str(e)\<close>.\<close>

datatype exn = Exn string string

datatype 'a outcome = Raises exn | Returns 'a

text \<open>\<^verbatim>\<open>raise HTTPException(status_code, detail=...)\<close>\<close>

datatype http_error = HTTPException nat string

text \<open>The module-level configuration, read once from the environment at import time.\<close>

record config =
  USE_S3 :: bool
  AWS_REGION :: string
  S3_BUCKET :: string
  S3_PREFIX :: string
  S3_PUBLIC_DOMAIN :: string
  PUBLIC_BASE_URL :: string
  MAX_UPLOAD_SIZE_MB :: int
  ROOT_DIR :: string

definition MAX_UPLOAD_SIZE :: "config \<Rightarrow> int" where
  "MAX_UPLOAD_SIZE cfg = MAX_UPLOAD_SIZE_MB cfg * 1024 * 1024"

subsection \<open>Python and path helpers\<close>

text \<open>Truthiness of an optional string: \<^verbatim>\<open>None\<close> and \<^verbatim>\<open>""\<close> are falsy.\<close>

fun truthy_str :: "string option \<Rightarrow> bool" where
  "truthy_str None = False"
| "truthy_str (Some u) = (u \<noteq> [])"

fun truthy :: "val \<Rightarrow> bool" where
  "truthy VNone = False"
| "truthy (VBool b) = b"
| "truthy (VInt i) = (i \<noteq> 0)"
| "truthy (VFloat x) = (x \<noteq> 0)"
| "truthy (VStr u) = (u \<noteq> [])"

fun opt_str :: "string option \<Rightarrow> val" where
  "opt_str None = VNone"
| "opt_str (Some u) = VStr u"

text \<open>\<^verbatim>\<open>d.get(k)\<close>: the value, or \<^verbatim>\<open>None\<close> when the key is missing.\<close>

definition dict_get :: "pydict \<Rightarrow> string \<Rightarrow> val" where
  "dict_get d k = (case map_of d k of None \<Rightarrow> VNone | Some v \<Rightarrow> v)"

text \<open>\<^verbatim>\<open>os.path.join(a, b)\<close> and \<^verbatim>\<open>os.path.basename(p)\<close> on POSIX.\<close>

definition path_join :: "string \<Rightarrow> string \<Rightarrow> string" where
  "path_join a b =
     (if b \<noteq> [] \<and> hd b = CHR ''/'' then b
      else if a = [] \<or> last a = CHR ''/'' then a @ b
      else a @ ''/'' @ b)"

definition basename :: "string \<Rightarrow> string" where
  "basename p = rev (takeWhile (\<lambda>c. c \<noteq> CHR ''/'') (rev p))"

text \<open>\<^verbatim>\<open>p.strip("/")\<close>, \<^verbatim>\<open>p.replace("..", "")\<close> and \<^verbatim>\<open>"/".join(parts)\<close>.\<close>

definition strip_slash :: "string \<Rightarrow> string" where
  "strip_slash p =
     rev (dropWhile (\<lambda>c. c = CHR ''/'') (rev (dropWhile (\<lambda>c. c = CHR ''/'') p)))"

fun remove_dotdot :: "string \<Rightarrow> string" where
  "remove_dotdot [] = []"
| "remove_dotdot [c] = [c]"
| "remove_dotdot (c # d # cs) =
     (if c = CHR ''.'' \<and> d = CHR ''.'' then remove_dotdot cs
      else c # remove_dotdot (d # cs))"

fun join_slash :: "string list \<Rightarrow> string" where
  "join_slash [] = []"
| "join_slash [p] = p"
| "join_slash (p # q # ps) = p @ ''/'' @ join_slash (q # ps)"

text \<open>\<^verbatim>\<open>str(n)\<close> for an integer, as the f-string of the 413 detail prints it.\<close>

fun str_nat :: "nat \<Rightarrow> string" where
  "str_nat n =
     (if n < 10 then [char_of (48 + n)]
      else str_nat (n div 10) @ [char_of (48 + n mod 10)])"

declare str_nat.simps [simp del]

definition str_int :: "int \<Rightarrow> string" where
  "str_int i = (if i < 0 then ''-'' @ str_nat (nat (- i)) else str_nat (nat i))"

subsection \<open>S3 helpers\<close>

definition s3_key :: "config \<Rightarrow> string list \<Rightarrow> string" where
  "s3_key cfg parts =
     (let safe = map (\<lambda>p. remove_dotdot (strip_slash p)) (filter (\<lambda>p. p \<noteq> []) parts)
      in if S3_PREFIX cfg \<noteq> [] then join_slash (S3_PREFIX cfg # safe) else join_slash safe)"

text \<open>
  \<^verbatim>\<open>_s3_url_for_key\<close>: the CDN domain when one is configured, otherwise what
  \<^verbatim>\<open>s3.generate_presigned_url\<close> answers for the key (an external call, given as
  \<open>presign\<close>).
\<close>

definition s3_url_for_key :: "config \<Rightarrow> (string \<Rightarrow> string) \<Rightarrow> string \<Rightarrow> string" where
  "s3_url_for_key cfg presign key =
     (if S3_PUBLIC_DOMAIN cfg \<noteq> [] then S3_PUBLIC_DOMAIN cfg @ ''/'' @ key
      else presign key)"

section \<open>The shared state\<close>

datatype pc = Registering | ImageGen | VideoGen | Finished

text \<open>
  A started pipeline thread: the arguments \<^verbatim>\<open>(job_id, upload_path, age_group, phone)\<close>
  given to \<^verbatim>\<open>threading.Thread\<close>, and how far \<^verbatim>\<open>_run_pipeline\<close> has come.
\<close>

record task =
  arg_job_id :: string
  arg_img_path :: string
  arg_age_group :: string
  arg_phone :: "string option"
  pc :: pc

text \<open>
  \<open>JOBS\<close> is the registry and \<open>lock_held\<close> is \<^verbatim>\<open>JOBS_LOCK\<close>. \<open>unguarded\<close> counts the
  accesses to \<open>JOBS\<close> made while the lock is not held. \<open>files\<close> is the upload directory
  on disk, \<open>removed\<close> the calls of \<^verbatim>\<open>os.remove\<close> in order, and \<open>threads\<close> the pipeline
  threads started so far.
\<close>

record state =
  JOBS :: "(string \<times> job) list"
  lock_held :: bool
  unguarded :: nat
  files :: "string \<rightharpoonup> bytes"
  removed :: "string list"
  threads :: "task list"

definition init :: state where
  "init = \<lparr>JOBS = [], lock_held = False, unguarded = 0, files = Map.empty,
           removed = [], threads = []\<rparr>"

subsection \<open>The lock and the registry\<close>

text \<open>Entering and leaving \<^verbatim>\<open>with JOBS_LOCK:\<close>.\<close>

definition acquire :: "state \<Rightarrow> state" where
  "acquire s = s\<lparr>lock_held := True\<rparr>"

definition release :: "state \<Rightarrow> state" where
  "release s = s\<lparr>lock_held := False\<rparr>"

text \<open>Every access to \<open>JOBS\<close> goes through \<open>touch\<close>, which notes an access made without the lock.\<close>

definition touch :: "state \<Rightarrow> state" where
  "touch s = (if lock_held s then s else s\<lparr>unguarded := Suc (unguarded s)\<rparr>)"

text \<open>\<^verbatim>\<open>JOBS.get(job_id)\<close>\<close>

definition jobs_get :: "string \<Rightarrow> state \<Rightarrow> job option \<times> state" where
  "jobs_get job_id s = (map_of (JOBS s) job_id, touch s)"

text \<open>\<^verbatim>\<open>JOBS[job_id] = record\<close>\<close>

definition jobs_put :: "string \<Rightarrow> job \<Rightarrow> state \<Rightarrow> state" where
  "jobs_put job_id j s = (touch s)\<lparr>JOBS := AList.update job_id j (JOBS s)\<rparr>"

text \<open>\<^verbatim>\<open>JOBS[job_id][k] = v\<close>, which raises \<^verbatim>\<open>KeyError\<close> when the job is missing.\<close>

definition KeyError :: "string \<Rightarrow> exn" where
  "KeyError k = Exn ''KeyError'' ([CHR 0x27] @ k @ [CHR 0x27])"

definition jobs_set :: "string \<Rightarrow> string \<Rightarrow> val \<Rightarrow> state \<Rightarrow> exn option \<times> state" where
  "jobs_set job_id k v s =
     (case map_of (JOBS s) job_id of
        None \<Rightarrow> (Some (KeyError job_id), touch s)
      | Some j \<Rightarrow>
          (None, (touch s)\<lparr>JOBS := AList.update job_id (AList.update k v j) (JOBS s)\<rparr>))"

fun jobs_set_many :: "string \<Rightarrow> (string \<times> val) list \<Rightarrow> state \<Rightarrow> exn option \<times> state" where
  "jobs_set_many job_id [] s = (None, s)"
| "jobs_set_many job_id ((k, v) # kvs) s =
     (case jobs_set job_id k v s of
        (Some e, s') \<Rightarrow> (Some e, s')
      | (None, s') \<Rightarrow> jobs_set_many job_id kvs s')"

text \<open>\<^verbatim>\<open>JOBS.values()\<close>\<close>

definition jobs_values :: "state \<Rightarrow> job list \<times> state" where
  "jobs_values s = (map snd (JOBS s), touch s)"

section \<open>The pipeline\<close>

text \<open>
  What the world answers during one run of \<^verbatim>\<open>_run_pipeline\<close>: the clock, the two
  generation calls, whether storing the media raised (a download, a file write or an S3
  upload), the presigned URLs, and whether \<^verbatim>\<open>os.remove\<close> raised. The stored media
  themselves are not part of the state.
\<close>

record pipeline_env =
  started_time :: real
  nano_banana_edit_result :: "string option outcome"
  wans2v_result :: "string option outcome"
  store_failure :: "exn option"
  presign :: "string \<Rightarrow> string"
  finished_time :: real
  remove_failure :: "exn option"

definition initial_job :: "string option \<Rightarrow> real \<Rightarrow> job" where
  "initial_job phone t =
     [(''status'', VStr ''image''), (''video_url'', VNone), (''image_url'', VNone),
      (''video_path'', VNone), (''error'', VNone), (''phone'', opt_str phone),
      (''started_at'', VFloat t)]"

fun error_text :: "exn \<Rightarrow> string" where
  "error_text (Exn name msg) = name @ '': '' @ msg"

definition failed_job :: "exn \<Rightarrow> string option \<Rightarrow> real \<Rightarrow> job" where
  "failed_job e phone t =
     [(''status'', VStr ''failed''), (''video_url'', VNone), (''image_url'', VNone),
      (''video_path'', VNone), (''error'', VStr (error_text e)), (''phone'', opt_str phone),
      (''failed_at'', VFloat t)]"

text \<open>The \<^verbatim>\<open>except Exception as e:\<close> block.\<close>

definition on_exception :: "pipeline_env \<Rightarrow> task \<Rightarrow> exn \<Rightarrow> state \<Rightarrow> state" where
  "on_exception env t e s =
     release (jobs_put (arg_job_id t) (failed_job e (arg_phone t) (finished_time env))
       (acquire s))"

text \<open>
  The \<^verbatim>\<open>finally:\<close> block: \<^verbatim>\<open>os.remove\<close> is called when the file exists, and an
  exception it raises is dropped.
\<close>

definition cleanup :: "pipeline_env \<Rightarrow> task \<Rightarrow> state \<Rightarrow> state" where
  "cleanup env t s =
     (if arg_img_path t \<in> dom (files s) then
        (case remove_failure env of
           None \<Rightarrow> s\<lparr>files := (files s)(arg_img_path t := None),
                     removed := removed s @ [arg_img_path t]\<rparr>
         | Some e \<Rightarrow> s\<lparr>removed := removed s @ [arg_img_path t]\<rparr>)
      else s)"

definition exit_failed :: "pipeline_env \<Rightarrow> task \<Rightarrow> exn \<Rightarrow> state \<Rightarrow> task \<times> state" where
  "exit_failed env t e s = (t\<lparr>pc := Finished\<rparr>, cleanup env t (on_exception env t e s))"

text \<open>Step 3 of the run: the URLs and the local path recorded for a stored job.\<close>

definition local_video_path :: "config \<Rightarrow> string \<Rightarrow> string" where
  "local_video_path cfg job_id =
     path_join (path_join (path_join (ROOT_DIR cfg) ''result'') ''videos'') (job_id @ ''.mp4'')"

definition final_video_url :: "config \<Rightarrow> pipeline_env \<Rightarrow> string \<Rightarrow> string" where
  "final_video_url cfg env job_id =
     (if USE_S3 cfg then s3_url_for_key cfg (presign env) (s3_key cfg [''videos'', job_id @ ''.mp4''])
      else let rel_url = ''/media/videos/'' @ basename (local_video_path cfg job_id)
           in if PUBLIC_BASE_URL cfg \<noteq> [] then PUBLIC_BASE_URL cfg @ rel_url else rel_url)"

definition final_image_url :: "config \<Rightarrow> pipeline_env \<Rightarrow> string \<Rightarrow> string" where
  "final_image_url cfg env job_id =
     (if USE_S3 cfg then s3_url_for_key cfg (presign env) (s3_key cfg [''images'', job_id @ ''.jpeg''])
      else let rel_img_url = ''/media/images/'' @ job_id @ ''.jpeg''
           in if PUBLIC_BASE_URL cfg \<noteq> [] then PUBLIC_BASE_URL cfg @ rel_img_url else rel_img_url)"

definition completed_fields :: "config \<Rightarrow> pipeline_env \<Rightarrow> string \<Rightarrow> (string \<times> val) list" where
  "completed_fields cfg env job_id =
     [(''status'', VStr ''completed''),
      (''video_url'', VStr (final_video_url cfg env job_id)),
      (''image_url'', VStr (final_image_url cfg env job_id)),
      (''video_path'', if \<not> USE_S3 cfg then VStr (local_video_path cfg job_id) else VNone),
      (''completed_at'', VFloat (finished_time env))]"

definition RuntimeError :: "string \<Rightarrow> exn" where
  "RuntimeError msg = Exn ''RuntimeError'' msg"

text \<open>
  \<^verbatim>\<open>_run_pipeline\<close>, one step at a time. A step ends after a block under the lock, so
  that other threads and requests run in between:
  \<^item> \<open>Registering\<close>: the first block, which stores the \<^verbatim>\<open>image\<close> record;
  \<^item> \<open>ImageGen\<close>: \<^verbatim>\<open>nano_banana_edit\<close>, then the status becomes \<^verbatim>\<open>video\<close>;
  \<^item> \<open>VideoGen\<close>: \<^verbatim>\<open>wans2v\<close>, storing the media, then the \<^verbatim>\<open>completed\<close> block.
  An exception anywhere runs the handler; every way out runs the cleanup.
\<close>

definition pipeline_step :: "config \<Rightarrow> pipeline_env \<Rightarrow> task \<Rightarrow> state \<Rightarrow> task \<times> state" where
  "pipeline_step cfg env t s =
     (case pc t of
        Registering \<Rightarrow>
          (t\<lparr>pc := ImageGen\<rparr>,
           release (jobs_put (arg_job_id t) (initial_job (arg_phone t) (started_time env))
             (acquire s)))
      | ImageGen \<Rightarrow>
          (case nano_banana_edit_result env of
             Raises e \<Rightarrow> exit_failed env t e s
           | Returns edited_img_url \<Rightarrow>
               if \<not> truthy_str edited_img_url
               then exit_failed env t (RuntimeError ''Image generation failed'') s
               else (case jobs_set (arg_job_id t) ''status'' (VStr ''video'') (acquire s) of
                       (Some e, s1) \<Rightarrow> exit_failed env t e (release s1)
                     | (None, s1) \<Rightarrow> (t\<lparr>pc := VideoGen\<rparr>, release s1)))
      | VideoGen \<Rightarrow>
          (case wans2v_result env of
             Raises e \<Rightarrow> exit_failed env t e s
           | Returns video_url_remote \<Rightarrow>
               if \<not> truthy_str video_url_remote
               then exit_failed env t (RuntimeError ''Video generation failed'') s
               else (case store_failure env of
                       Some e \<Rightarrow> exit_failed env t e s
                     | None \<Rightarrow>
                         (case jobs_set_many (arg_job_id t)
                                 (completed_fields cfg env (arg_job_id t)) (acquire s) of
                            (Some e, s1) \<Rightarrow> exit_failed env t e (release s1)
                          | (None, s1) \<Rightarrow> (t\<lparr>pc := Finished\<rparr>, cleanup env t (release s1)))))
      | Finished \<Rightarrow> (t, s))"

text \<open>A thread that has just been started.\<close>

definition new_task :: "string \<Rightarrow> string \<Rightarrow> string \<Rightarrow> string option \<Rightarrow> task" where
  "new_task job_id img_path age_group phone =
     \<lparr>arg_job_id = job_id, arg_img_path = img_path, arg_age_group = age_group,
      arg_phone = phone, pc = Registering\<rparr>"

text \<open>
  The whole of \<^verbatim>\<open>_run_pipeline(job_id, img_path, age_group, phone)\<close>, run without
  interruption: its three steps in a row.
\<close>

definition run_pipeline ::
  "config \<Rightarrow> pipeline_env \<Rightarrow> string \<Rightarrow> string \<Rightarrow> string \<Rightarrow> string option \<Rightarrow> state \<Rightarrow> state" where
  "run_pipeline cfg env job_id img_path age_group phone s =
     (let (t1, s1) = pipeline_step cfg env (new_task job_id img_path age_group phone) s;
          (t2, s2) = pipeline_step cfg env t1 s1;
          (t3, s3) = pipeline_step cfg env t2 s2
      in s3)"

text \<open>
  The \<^verbatim>\<open>completed\<close> block assigns its five fields one after the other to the job's
  dictionary, which stays the same object: \<open>block_states\<close> lists what that object holds
  before the block and after each assignment, the status first (line 242), then the
  video URL (243), the image URL (244), the path and the time.
\<close>

fun block_states :: "(string \<times> val) list \<Rightarrow> job \<Rightarrow> job list" where
  "block_states [] j = [j]"
| "block_states ((k, v) # kvs) j = j # block_states kvs (AList.update k v j)"

definition completed_block :: "config \<Rightarrow> pipeline_env \<Rightarrow> string \<Rightarrow> job \<Rightarrow> job list" where
  "completed_block cfg env job_id j = block_states (completed_fields cfg env job_id) j"

section \<open>The endpoints\<close>

type_synonym response = pydict

subsection \<open>Submitting a job\<close>

text \<open>
  The uploaded part: \<^verbatim>\<open>Path(image.filename).suffix\<close>, \<^verbatim>\<open>image.content_type\<close> and
  the bytes that \<^verbatim>\<open>image.read\<close> hands out.
\<close>

record upload =
  filename_suffix :: string
  content_type :: "string option"
  body :: bytes

definition chunk_size :: nat where
  "chunk_size = 1024 * 1024"

text \<open>
  The loop that streams the upload to disk. \<open>rest\<close> is what is left to read, \<open>nread\<close>
  the counter \<^verbatim>\<open>read\<close> and \<open>written\<close> the file so far. The result says whether the
  413 was raised, and holds the file as it is left on disk.
\<close>

function stream_to_disk :: "int \<Rightarrow> bytes \<Rightarrow> nat \<Rightarrow> bytes \<Rightarrow> bool \<times> bytes" where
  "stream_to_disk limit rest nread written =
     (let chunk = take chunk_size rest in
      if chunk = [] then (False, written)
      else if int (nread + length chunk) > limit then (True, written)
      else stream_to_disk limit (drop chunk_size rest) (nread + length chunk) (written @ chunk))"
  by pat_completeness auto
termination
  by (relation "measure (\<lambda>(limit, rest, nread, written). length rest)")
     (auto simp: chunk_size_def)

declare stream_to_disk.simps [simp del]

definition UPLOAD_DIR :: "config \<Rightarrow> string" where
  "UPLOAD_DIR cfg = path_join (ROOT_DIR cfg) ''uploads''"

definition upload_path_of :: "config \<Rightarrow> string \<Rightarrow> upload \<Rightarrow> string" where
  "upload_path_of cfg job_id img =
     (let ext = (if filename_suffix img \<noteq> [] then filename_suffix img else ''.jpg'')
      in path_join (UPLOAD_DIR cfg) (job_id @ ext))"

text \<open>
  \<^verbatim>\<open>create_job\<close>; \<open>uuid4\<close> is the string that \<^verbatim>\<open>str(uuid.uuid4())\<close> gives. The
  thread is started with \<open>pc = Registering\<close>: \<^verbatim>\<open>create_job\<close> itself does not touch
  \<open>JOBS\<close>.
\<close>

definition create_job ::
  "config \<Rightarrow> string \<Rightarrow> upload \<Rightarrow> string \<Rightarrow> string option \<Rightarrow> state
     \<Rightarrow> (http_error + response) \<times> state" where
  "create_job cfg uuid4 img age_group phone s =
     (if age_group \<notin> {''Male'', ''Female'', ''Boy'', ''Girl''}
      then (Inl (HTTPException 400 ''Invalid age_group''), s)
      else if content_type img \<notin> {Some ''image/jpeg'', Some ''image/png''}
      then (Inl (HTTPException 400 ''Only JPEG/PNG images are accepted''), s)
      else
        let job_id = uuid4;
            upload_path = upload_path_of cfg job_id img;
            (too_large, written) = stream_to_disk (MAX_UPLOAD_SIZE cfg) (body img) 0 [];
            s1 = s\<lparr>files := (files s)(upload_path \<mapsto> written)\<rparr>
        in if too_large
           then (Inl (HTTPException 413
                       (''File too large (max '' @ str_int (MAX_UPLOAD_SIZE_MB cfg) @ ''MB)'')), s1)
           else (Inr [(''job_id'', VStr job_id)],
                 s1\<lparr>threads := threads s1 @ [new_task job_id upload_path age_group phone]\<rparr>))"

subsection \<open>Polling a job\<close>

text \<open>
  An exception that no handler catches (here the \<^verbatim>\<open>KeyError\<close> of \<^verbatim>\<open>job["status"]\<close>)
  is answered by the framework with a 500.
\<close>

definition internal_error :: http_error where
  "internal_error = HTTPException 500 ''Internal Server Error''"

text \<open>
  \<^verbatim>\<open>job_status\<close> on a state: the poll when nothing writes the job's dictionary between
  its reads, so that what was found under the lock is what the later reads see.
\<close>

definition job_status :: "string \<Rightarrow> state \<Rightarrow> (http_error + response) \<times> state" where
  "job_status job_id s =
     (let (job, s1) = jobs_get job_id (acquire s);
          s2 = release s1
      in case job of
           None \<Rightarrow> (Inr [(''status'', VStr ''queued'')], s2)
         | Some j \<Rightarrow>
             if j = [] then (Inr [(''status'', VStr ''queued'')], s2)
             else (case map_of j ''status'' of
                     None \<Rightarrow> (Inl internal_error, s2)
                   | Some st \<Rightarrow>
                       let resp = [(''status'', st), (''error'', dict_get j ''error'')]
                       in if st = VStr ''completed''
                          then (Inr (resp @
                                  [(''video_url'', dict_get j ''video_url''),
                                   (''image_url'', dict_get j ''image_url''),
                                   (''qr_url'', VStr (''/api/jobs/'' @ job_id @ ''/qr''))]), s2)
                          else (Inr resp, s2)))"

text \<open>
  The poll in general, once \<^verbatim>\<open>JOBS.get\<close> has found the job. \<^verbatim>\<open>job\<close> is the
  dictionary object itself, not a copy, and the lock is released before it is read:
  \<^verbatim>\<open>not job\<close>, \<^verbatim>\<open>job["status"]\<close>, \<^verbatim>\<open>job.get("error")\<close>, \<^verbatim>\<open>job["status"]\<close> again,
  \<^verbatim>\<open>job.get("video_url")\<close> and \<^verbatim>\<open>job.get("image_url")\<close>. \<open>view i\<close> is what the object
  holds at read number \<open>i\<close>.
\<close>

definition job_status_reads :: "string \<Rightarrow> (nat \<Rightarrow> job) \<Rightarrow> http_error + response" where
  "job_status_reads job_id view =
     (if view 0 = [] then Inr [(''status'', VStr ''queued'')]
      else (case map_of (view 1) ''status'' of
              None \<Rightarrow> Inl internal_error
            | Some st \<Rightarrow>
                let resp = [(''status'', st), (''error'', dict_get (view 2) ''error'')]
                in (case map_of (view 3) ''status'' of
                      None \<Rightarrow> Inl internal_error
                    | Some st' \<Rightarrow>
                        if st' = VStr ''completed''
                        then Inr (resp @
                               [(''video_url'', dict_get (view 4) ''video_url''),
                                (''image_url'', dict_get (view 5) ''image_url''),
                                (''qr_url'', VStr (''/api/jobs/'' @ job_id @ ''/qr''))])
                        else Inr resp)))"

subsection \<open>The QR code\<close>

text \<open>
  The answer of \<^verbatim>\<open>job_qr\<close>: the PNG rendering of the image that
  \<^verbatim>\<open>generate_qr_code\<close> makes of \<^verbatim>\<open>job["video_url"]\<close>. The function is imported
  from the module \<^verbatim>\<open>wave\<close> and is a parameter here.
\<close>

record 'img qr_response =
  png_of :: 'img
  media_type :: string
  headers :: "(string \<times> string) list"

definition job_qr ::
  "(val \<Rightarrow> 'img) \<Rightarrow> string \<Rightarrow> state \<Rightarrow> (http_error + 'img qr_response) \<times> state" where
  "job_qr generate_qr_code job_id s =
     (let (job, s1) = jobs_get job_id (acquire s);
          s2 = release s1
      in case job of
           None \<Rightarrow> (Inl (HTTPException 404 ''QR not available''), s2)
         | Some j \<Rightarrow>
             if j = [] \<or> dict_get j ''status'' \<noteq> VStr ''completed''
                \<or> \<not> truthy (dict_get j ''video_url'')
             then (Inl (HTTPException 404 ''QR not available''), s2)
             else (Inr \<lparr>png_of = generate_qr_code (dict_get j ''video_url''),
                         media_type = ''image/png'',
                         headers = [(''Cache-Control'', ''public, max-age=3600'')]\<rparr>, s2))"

subsection \<open>The quiz questions\<close>

text \<open>
  \<^verbatim>\<open>get_random_questions\<close> is imported from the module \<^verbatim>\<open>quiz\<close>; what it
  answers for the request is the argument \<open>selected\<close>: an exception, or a list of
  question dictionaries with values of any type \<open>'v\<close>.
\<close>

record 'v questions_response =
  questions :: "(string \<times> 'v) list list"
  key :: "(string \<times> 'v) list list"

text \<open>One entry of \<^verbatim>\<open>sanitized\<close>; a missing field raises \<^verbatim>\<open>KeyError\<close>.\<close>

definition sanitize :: "(string \<times> 'v) list \<Rightarrow> exn + (string \<times> 'v) list" where
  "sanitize q =
     (case map_of q ''id'' of
        None \<Rightarrow> Inl (KeyError ''id'')
      | Some i \<Rightarrow>
          (case map_of q ''question'' of
             None \<Rightarrow> Inl (KeyError ''question'')
           | Some qu \<Rightarrow>
               (case map_of q ''options'' of
                  None \<Rightarrow> Inl (KeyError ''options'')
                | Some os \<Rightarrow> Inr [(''id'', i), (''question'', qu), (''options'', os)])))"

fun sanitize_all :: "(string \<times> 'v) list list \<Rightarrow> exn + (string \<times> 'v) list list" where
  "sanitize_all [] = Inr []"
| "sanitize_all (q # qs) =
     (case sanitize q of
        Inl e \<Rightarrow> Inl e
      | Inr c \<Rightarrow> (case sanitize_all qs of Inl e \<Rightarrow> Inl e | Inr cs \<Rightarrow> Inr (c # cs)))"

fun exn_str :: "exn \<Rightarrow> string" where
  "exn_str (Exn name msg) = msg"

definition get_questions ::
  "(string \<times> 'v) list list outcome \<Rightarrow> http_error + 'v questions_response" where
  "get_questions selected =
     (case selected of
        Raises e \<Rightarrow> Inl (HTTPException 500 (exn_str e))
      | Returns qs \<Rightarrow>
          (case sanitize_all qs of
             Inl e \<Rightarrow> Inl (HTTPException 500 (exn_str e))
           | Inr sanitized \<Rightarrow> Inr \<lparr>questions = sanitized, key = qs\<rparr>))"

subsection \<open>The health check\<close>

text \<open>
  \<^verbatim>\<open>healthz\<close> reads \<^verbatim>\<open>JOBS.values()\<close> directly. \<open>now\<close> is the clock (\<^verbatim>\<open>int\<close>
  cuts its fraction off) and \<open>head_bucket\<close> the exception of \<^verbatim>\<open>s3.head_bucket\<close>, if it
  raised.
\<close>

fun count_active :: "job list \<Rightarrow> exn + nat" where
  "count_active [] = Inr 0"
| "count_active (j # js) =
     (case map_of j ''status'' of
        None \<Rightarrow> Inl (KeyError ''status'')
      | Some st \<Rightarrow>
          (case count_active js of
             Inl e \<Rightarrow> Inl e
           | Inr n \<Rightarrow> Inr (if st \<in> {VStr ''image'', VStr ''video''} then Suc n else n)))"

definition healthz ::
  "config \<Rightarrow> real \<Rightarrow> exn option \<Rightarrow> state \<Rightarrow> (http_error + response) \<times> state" where
  "healthz cfg now head_bucket s =
     (let (js, s1) = jobs_values s
      in case count_active js of
           Inl e \<Rightarrow> (Inl internal_error, s1)
         | Inr n \<Rightarrow>
             let health = [(''ok'', VBool True), (''time'', VInt (if 0 \<le> now then \<lfloor>now\<rfloor> else \<lceil>now\<rceil>)),
                           (''storage'', VStr (if USE_S3 cfg then ''s3'' else ''local'')),
                           (''jobs_active'', VInt (int n))]
             in if USE_S3 cfg then
                  (case head_bucket of
                     None \<Rightarrow>
                       (Inr (health @
                          [(''s3_status'', VStr ''connected''),
                           (''s3_bucket'', VStr (S3_BUCKET cfg)),
                           (''s3_region'', VStr (AWS_REGION cfg)),
                           (''cdn'', VStr (if S3_PUBLIC_DOMAIN cfg \<noteq> []
                                           then S3_PUBLIC_DOMAIN cfg else ''presigned''))]), s1)
                   | Some e \<Rightarrow>
                       (Inr (health @ [(''s3_status'', VStr (''error: '' @ exn_str e))]), s1))
                else (Inr health, s1))"

section \<open>The process over time\<close>

text \<open>
  What happens in the process, one event after the other: a request to an endpoint, or
  one step of the pipeline thread at position \<open>i\<close> of \<open>threads\<close>.
\<close>

datatype event =
    Submit string upload string "string option"
  | Step nat pipeline_env
  | Poll string
  | QR string
  | Health real "exn option"

fun exec :: "config \<Rightarrow> event \<Rightarrow> state \<Rightarrow> state" where
  "exec cfg (Submit uuid4 img age_group phone) s =
     snd (create_job cfg uuid4 img age_group phone s)"
| "exec cfg (Step i env) s =
     (if i < length (threads s)
      then (case pipeline_step cfg env (threads s ! i) s of
              (t', s') \<Rightarrow> s'\<lparr>threads := (threads s')[i := t']\<rparr>)
      else s)"
| "exec cfg (Poll job_id) s = snd (job_status job_id s)"
| "exec cfg (QR job_id) s = snd (job_qr (\<lambda>url. ()) job_id s)"
| "exec cfg (Health now head_bucket) s = snd (healthz cfg now head_bucket s)"

fun run :: "config \<Rightarrow> event list \<Rightarrow> state \<Rightarrow> state" where
  "run cfg [] s = s"
| "run cfg (ev # evs) s = run cfg evs (exec cfg ev s)"

text \<open>The states passed through, the first one included.\<close>

fun states :: "config \<Rightarrow> event list \<Rightarrow> state \<Rightarrow> state list" where
  "states cfg [] s = [s]"
| "states cfg (ev # evs) s = s # states cfg evs (exec cfg ev s)"

text \<open>
  \<^verbatim>\<open>uuid.uuid4()\<close> gives an identifier that no earlier submission got: a schedule has
  fresh identifiers when each \<open>Submit\<close> carries one that no started thread has.
\<close>

fun fresh_ids :: "config \<Rightarrow> event list \<Rightarrow> state \<Rightarrow> bool" where
  "fresh_ids cfg [] s = True"
| "fresh_ids cfg (Submit uuid4 img age_group phone # evs) s =
     (uuid4 \<notin> set (map arg_job_id (threads s))
      \<and> fresh_ids cfg evs (exec cfg (Submit uuid4 img age_group phone) s))"
| "fresh_ids cfg (ev # evs) s = fresh_ids cfg evs (exec cfg ev s)"

text \<open>The status stored for a job, if the registry has the job and the field.\<close>

definition status_of :: "state \<Rightarrow> string \<Rightarrow> val option" where
  "status_of s job_id =
     (case map_of (JOBS s) job_id of None \<Rightarrow> None | Some j \<Rightarrow> map_of j ''status'')"

section \<open>Derived notions\<close>

text \<open>
  The exception that the image stage raises before it reaches the registry (from
  \<^verbatim>\<open>nano_banana_edit\<close>, or the \<^verbatim>\<open>RuntimeError\<close> for a falsy result), and the same
  for the video stage, which also covers storing the media.
\<close>

definition image_failure :: "pipeline_env \<Rightarrow> exn option" where
  "image_failure env =
     (case nano_banana_edit_result env of
        Raises e \<Rightarrow> Some e
      | Returns u \<Rightarrow> if truthy_str u then None else Some (RuntimeError ''Image generation failed''))"

definition video_failure :: "pipeline_env \<Rightarrow> exn option" where
  "video_failure env =
     (case wans2v_result env of
        Raises e \<Rightarrow> Some e
      | Returns u \<Rightarrow>
          if truthy_str u then store_failure env
          else Some (RuntimeError ''Video generation failed''))"

text \<open>Several assignments \<^verbatim>\<open>JOBS[job_id][k] = v\<close> in a row, seen on the job's record.\<close>

fun set_fields :: "(string \<times> val) list \<Rightarrow> job \<Rightarrow> job" where
  "set_fields [] j = j"
| "set_fields ((k, v) # kvs) j = set_fields kvs (AList.update k v j)"

text \<open>The registry after a block under the lock that stores record \<open>j\<close> for a job.\<close>

definition put :: "string \<Rightarrow> job \<Rightarrow> state \<Rightarrow> state" where
  "put job_id j s = s\<lparr>JOBS := AList.update job_id j (JOBS s), lock_held := False\<rparr>"

text \<open>
  A schedule in which no submission writes to path \<open>p\<close>, and a state in which no started
  thread was given \<open>p\<close> as its upload.
\<close>

fun uploads_elsewhere :: "config \<Rightarrow> string \<Rightarrow> event list \<Rightarrow> bool" where
  "uploads_elsewhere cfg p [] = True"
| "uploads_elsewhere cfg p (Submit uuid4 img age_group phone # evs) =
     (upload_path_of cfg uuid4 img \<noteq> p \<and> uploads_elsewhere cfg p evs)"
| "uploads_elsewhere cfg p (ev # evs) = uploads_elsewhere cfg p evs"

definition no_task_for :: "string \<Rightarrow> state \<Rightarrow> bool" where
  "no_task_for p s = (p \<notin> set (map arg_img_path (threads s)))"

text \<open>
  The states a stored job can be in, the status that a poll answers for a job, and the
  registry entries a poll can answer for: no entry, or an entry whose status is one of
  the four states.
\<close>

definition job_states :: "string set" where
  "job_states = {''image'', ''video'', ''completed'', ''failed''}"

definition poll_status :: "string \<Rightarrow> state \<Rightarrow> val option" where
  "poll_status job_id s =
     (case fst (job_status job_id s) of Inl e \<Rightarrow> None | Inr resp \<Rightarrow> map_of resp ''status'')"

definition pollable :: "state \<Rightarrow> string \<Rightarrow> bool" where
  "pollable s job_id =
     (case map_of (JOBS s) job_id of
        None \<Rightarrow> True
      | Some j \<Rightarrow> (case map_of j ''status'' of Some (VStr st) \<Rightarrow> st \<in> job_states | _ \<Rightarrow> False))"

text \<open>
  A URL field that is set: a string that is not empty. A record has its URLs set when,
  if it is \<^verbatim>\<open>completed\<close>, both URL fields are set. The presigned URLs answered by S3
  matter only when S3 is used without a CDN domain.
\<close>

fun is_url :: "val \<Rightarrow> bool" where
  "is_url (VStr u) = (u \<noteq> [])"
| "is_url v = False"

definition urls_set :: "job \<Rightarrow> bool" where
  "urls_set j =
     (map_of j ''status'' = Some (VStr ''completed'') \<longrightarrow>
        is_url (dict_get j ''video_url'') \<and> is_url (dict_get j ''image_url''))"

definition presign_nonempty :: "config \<Rightarrow> pipeline_env \<Rightarrow> bool" where
  "presign_nonempty cfg env =
     (USE_S3 cfg \<and> S3_PUBLIC_DOMAIN cfg = [] \<longrightarrow> (\<forall>k. presign env k \<noteq> []))"

text \<open>
  The state machine of a job, on the status stored for it (\<open>None\<close>: not stored yet): a
  step of the machine leaves the status as it is, or goes from nothing to \<^verbatim>\<open>image\<close>,
  from \<^verbatim>\<open>image\<close> to \<^verbatim>\<open>video\<close> or \<^verbatim>\<open>failed\<close>, or from \<^verbatim>\<open>video\<close> to
  \<^verbatim>\<open>completed\<close> or \<^verbatim>\<open>failed\<close>. Nothing leads out of \<^verbatim>\<open>completed\<close> or \<^verbatim>\<open>failed\<close>.
\<close>

definition trans_ok :: "val option \<Rightarrow> val option \<Rightarrow> bool" where
  "trans_ok a b =
     (a = b
      \<or> a = None \<and> b = Some (VStr ''image'')
      \<or> a = Some (VStr ''image'') \<and> (b = Some (VStr ''video'') \<or> b = Some (VStr ''failed''))
      \<or> a = Some (VStr ''video'') \<and> (b = Some (VStr ''completed'') \<or> b = Some (VStr ''failed'')))"

text \<open>
  A thread is in step with the registry when the status stored for its job is the one
  its position in \<^verbatim>\<open>_run_pipeline\<close> has written last. A state is consistent when the
  threads have different job identifiers, every stored job belongs to a thread, and
  every thread is in step.
\<close>

definition in_step :: "state \<Rightarrow> task \<Rightarrow> bool" where
  "in_step s t =
     (case pc t of
        Registering \<Rightarrow> map_of (JOBS s) (arg_job_id t) = None
      | ImageGen \<Rightarrow> status_of s (arg_job_id t) = Some (VStr ''image'')
      | VideoGen \<Rightarrow> status_of s (arg_job_id t) = Some (VStr ''video'')
      | Finished \<Rightarrow> status_of s (arg_job_id t) = Some (VStr ''completed'')
                    \<or> status_of s (arg_job_id t) = Some (VStr ''failed''))"

definition consistent :: "state \<Rightarrow> bool" where
  "consistent s =
     (distinct (map arg_job_id (threads s))
      \<and> (\<forall>k. map_of (JOBS s) k \<noteq> None \<longrightarrow> k \<in> set (map arg_job_id (threads s)))
      \<and> (\<forall>t \<in> set (threads s). in_step s t))"

section \<open>Example inputs\<close>

definition cfg_local :: config where
  "cfg_local =
     \<lparr>USE_S3 = False, AWS_REGION = ''me-central-1'', S3_BUCKET = [],
      S3_PREFIX = ''uae-national-day'', S3_PUBLIC_DOMAIN = [], PUBLIC_BASE_URL = [],
      MAX_UPLOAD_SIZE_MB = 10, ROOT_DIR = ''/app''\<rparr>"

definition env_ok :: pipeline_env where
  "env_ok =
     \<lparr>started_time = 1, nano_banana_edit_result = Returns (Some ''https://gen/i.jpeg''),
      wans2v_result = Returns (Some ''https://gen/v.mp4''), store_failure = None,
      presign = (\<lambda>k. ''https://s3/'' @ k), finished_time = 2, remove_failure = None\<rparr>"

definition png_upload :: upload where
  "png_upload = \<lparr>filename_suffix = ''.png'', content_type = Some ''image/png'', body = [1, 2, 3]\<rparr>"

text \<open>An upload of 11 MB.\<close>

definition eleven_mb :: upload where
  "eleven_mb = \<lparr>filename_suffix = ''.jpg'', content_type = Some ''image/jpeg'',
                 body = replicate (11 * 1024 * 1024) 0\<rparr>"

text \<open>A job whose upload is on disk, before and after the first step of its thread.\<close>

definition task_j1 :: task where
  "task_j1 = new_task ''j1'' ''/app/uploads/j1.png'' ''Boy'' None"

definition uploaded_state :: state where
  "uploaded_state = init\<lparr>files := [''/app/uploads/j1.png'' \<mapsto> [1, 2, 3]]\<rparr>"

definition registered_state :: state where
  "registered_state = snd (pipeline_step cfg_local env_ok task_j1 uploaded_state)"

text \<open>The record of that job after its image was generated.\<close>

definition video_record :: job where
  "video_record = AList.update ''status'' (VStr ''video'') (initial_job None 1)"

definition env_image_fails :: pipeline_env where
  "env_image_fails = env_ok\<lparr>nano_banana_edit_result := Raises (Exn ''TimeoutError'' ''timed out'')\<rparr>"

text \<open>A submission and the three steps of its thread.\<close>

definition full_run :: "event list" where
  "full_run = [Submit ''j1'' png_upload ''Boy'' None, Step 0 env_ok, Step 0 env_ok, Step 0 env_ok]"

text \<open>A submission whose image generation fails.\<close>

definition failing_run :: "event list" where
  "failing_run = [Submit ''j1'' png_upload ''Boy'' None, Step 0 env_ok, Step 0 env_image_fails]"

definition quiz_question :: "(string \<times> string list) list" where
  "quiz_question =
     [(''id'', [''1'']), (''question'', [''Capital of the UAE?'']),
      (''options'', [''Abu Dhabi'', ''Dubai'']), (''answer'', [''Abu Dhabi''])]"

definition completed_state :: state where
  "completed_state =
     init\<lparr>JOBS := [(''j1'', [(''status'', VStr ''completed''),
                              (''video_url'', VStr ''/media/videos/j1.mp4''),
                              (''image_url'', VStr ''/media/images/j1.jpeg'')])]\<rparr>"

section \<open>The pipeline step in closed form\<close>

lemma jobs_set_locked:
  "lock_held s \<Longrightarrow> jobs_set job_id k v s =
     (case map_of (JOBS s) job_id of
        None \<Rightarrow> (Some (KeyError job_id), s)
      | Some j \<Rightarrow> (None, s\<lparr>JOBS := AList.update job_id (AList.update k v j) (JOBS s)\<rparr>))"
  by (simp add: jobs_set_def touch_def split: option.splits)

lemma jobs_set_acquired:
  "jobs_set job_id k v (s\<lparr>lock_held := True\<rparr>) =
     (case map_of (JOBS s) job_id of
        None \<Rightarrow> (Some (KeyError job_id), s\<lparr>lock_held := True\<rparr>)
      | Some j \<Rightarrow>
          (None, s\<lparr>JOBS := AList.update job_id (AList.update k v j) (JOBS s),
                   lock_held := True\<rparr>))"
  by (simp add: jobs_set_def touch_def split: option.splits)

lemma jobs_set_many_missing:
  "lock_held s \<Longrightarrow> map_of (JOBS s) job_id = None \<Longrightarrow> kvs \<noteq> [] \<Longrightarrow>
     jobs_set_many job_id kvs s = (Some (KeyError job_id), s)"
  by (cases kvs) (auto simp: jobs_set_locked)

lemma jobs_set_many_present:
  "lock_held s \<Longrightarrow> map_of (JOBS s) job_id = Some j \<Longrightarrow>
     jobs_set_many job_id kvs s =
       (None, s\<lparr>JOBS := AList.update job_id (set_fields kvs j) (JOBS s)\<rparr>)"
proof (induction kvs arbitrary: s j)
  case Nil
  then show ?case by (simp add: AList.update_triv)
next
  case (Cons kv kvs)
  obtain k v where kv: "kv = (k, v)" by (cases kv)
  let ?s = "s\<lparr>JOBS := AList.update job_id (AList.update k v j) (JOBS s)\<rparr>"
  have "lock_held ?s" "map_of (JOBS ?s) job_id = Some (AList.update k v j)"
    using Cons.prems by (simp_all add: AList.update_conv')
  from Cons.IH [OF this] Cons.prems kv show ?case
    by (simp add: jobs_set_locked)
qed

lemma exit_failed_eq:
  "exit_failed env t e s =
     (t\<lparr>pc := Finished\<rparr>,
      cleanup env t (put (arg_job_id t) (failed_job e (arg_phone t) (finished_time env)) s))"
  by (simp add: exit_failed_def on_exception_def jobs_put_def acquire_def release_def
        touch_def put_def)

lemma completed_fields_nonempty: "completed_fields cfg env job_id \<noteq> []"
  by (simp add: completed_fields_def)

lemma pipeline_step_eq:
  "pipeline_step cfg env t s =
     (case pc t of
        Registering \<Rightarrow>
          (t\<lparr>pc := ImageGen\<rparr>,
           put (arg_job_id t) (initial_job (arg_phone t) (started_time env)) s)
      | ImageGen \<Rightarrow>
          (case image_failure env of
             Some e \<Rightarrow> exit_failed env t e s
           | None \<Rightarrow>
               (case map_of (JOBS s) (arg_job_id t) of
                  None \<Rightarrow> exit_failed env t (KeyError (arg_job_id t)) s
                | Some j \<Rightarrow>
                    (t\<lparr>pc := VideoGen\<rparr>,
                     put (arg_job_id t) (AList.update ''status'' (VStr ''video'') j) s)))
      | VideoGen \<Rightarrow>
          (case video_failure env of
             Some e \<Rightarrow> exit_failed env t e s
           | None \<Rightarrow>
               (case map_of (JOBS s) (arg_job_id t) of
                  None \<Rightarrow> exit_failed env t (KeyError (arg_job_id t)) s
                | Some j \<Rightarrow>
                    (t\<lparr>pc := Finished\<rparr>,
                     cleanup env t
                       (put (arg_job_id t)
                          (set_fields (completed_fields cfg env (arg_job_id t)) j) s))))
      | Finished \<Rightarrow> (t, s))"
proof (cases "pc t")
  case Registering
  then show ?thesis
    by (simp add: pipeline_step_def jobs_put_def acquire_def release_def touch_def put_def)
next
  case ImageGen
  show ?thesis
  proof (cases "image_failure env")
    case (Some e)
    with ImageGen show ?thesis
      by (auto simp: pipeline_step_def image_failure_def split: outcome.splits if_splits)
  next
    case None
    then obtain u where u: "nano_banana_edit_result env = Returns u" "truthy_str u"
      by (auto simp: image_failure_def split: outcome.splits if_splits)
    show ?thesis
      using ImageGen None u
      by (simp add: pipeline_step_def jobs_set_acquired exit_failed_eq put_def
            acquire_def release_def split: option.splits)
  qed
next
  case VideoGen
  show ?thesis
  proof (cases "video_failure env")
    case (Some e)
    with VideoGen show ?thesis
      by (auto simp: pipeline_step_def video_failure_def split: outcome.splits if_splits option.splits)
  next
    case None
    then obtain u where u: "wans2v_result env = Returns u" "truthy_str u" "store_failure env = None"
      by (auto simp: video_failure_def split: outcome.splits if_splits)
    let ?s = "s\<lparr>lock_held := True\<rparr>"
    have l: "lock_held ?s" by simp
    show ?thesis
    proof (cases "map_of (JOBS s) (arg_job_id t)")
      case n: None
      then have m: "map_of (JOBS ?s) (arg_job_id t) = None" by simp
      show ?thesis
        using VideoGen None u n
        by (simp add: pipeline_step_def jobs_set_many_missing [OF l m completed_fields_nonempty]
              exit_failed_eq put_def acquire_def release_def)
    next
      case (Some j)
      then have m: "map_of (JOBS ?s) (arg_job_id t) = Some j" by simp
      show ?thesis
        using VideoGen None u Some
        by (simp add: pipeline_step_def jobs_set_many_present [OF l m]
              put_def acquire_def release_def)
    qed
  qed
next
  case Finished
  then show ?thesis by (simp add: pipeline_step_def)
qed

section \<open>Effects of the operations on the state\<close>

lemma cleanup_frame [simp]:
  "JOBS (cleanup env t s) = JOBS s"
  "threads (cleanup env t s) = threads s"
  "unguarded (cleanup env t s) = unguarded s"
  "lock_held (cleanup env t s) = lock_held s"
  by (simp_all add: cleanup_def split: option.splits)

lemma cleanup_other_file: "p \<noteq> arg_img_path t \<Longrightarrow> files (cleanup env t s) p = files s p"
  by (simp add: cleanup_def split: option.splits)

lemma put_frame [simp]:
  "JOBS (put job_id j s) = AList.update job_id j (JOBS s)"
  "files (put job_id j s) = files s"
  "removed (put job_id j s) = removed s"
  "threads (put job_id j s) = threads s"
  "unguarded (put job_id j s) = unguarded s"
  "lock_held (put job_id j s) = False"
  by (simp_all add: put_def)

lemma pipeline_step_task:
  "arg_job_id (fst (pipeline_step cfg env t s)) = arg_job_id t"
  "arg_img_path (fst (pipeline_step cfg env t s)) = arg_img_path t"
  "arg_phone (fst (pipeline_step cfg env t s)) = arg_phone t"
  by (simp_all add: pipeline_step_eq exit_failed_eq split: pc.splits option.splits)

lemma pipeline_step_threads:
  "threads (snd (pipeline_step cfg env t s)) = threads s"
  by (simp add: pipeline_step_eq exit_failed_eq split: pc.splits option.splits)

lemma pipeline_step_other_file:
  "p \<noteq> arg_img_path t \<Longrightarrow> files (snd (pipeline_step cfg env t s)) p = files s p"
  by (simp add: pipeline_step_eq exit_failed_eq cleanup_other_file split: pc.splits option.splits)

lemma job_status_frame [simp]:
  "JOBS (snd (job_status job_id s)) = JOBS s"
  "files (snd (job_status job_id s)) = files s"
  "removed (snd (job_status job_id s)) = removed s"
  "threads (snd (job_status job_id s)) = threads s"
  by (simp_all add: job_status_def jobs_get_def acquire_def release_def touch_def Let_def
        split: option.splits)

lemma job_qr_frame [simp]:
  "JOBS (snd (job_qr g job_id s)) = JOBS s"
  "files (snd (job_qr g job_id s)) = files s"
  "removed (snd (job_qr g job_id s)) = removed s"
  "threads (snd (job_qr g job_id s)) = threads s"
  by (simp_all add: job_qr_def jobs_get_def acquire_def release_def touch_def Let_def
        split: option.splits)

lemma healthz_frame [simp]:
  "JOBS (snd (healthz cfg now hb s)) = JOBS s"
  "files (snd (healthz cfg now hb s)) = files s"
  "removed (snd (healthz cfg now hb s)) = removed s"
  "threads (snd (healthz cfg now hb s)) = threads s"
  by (simp_all add: healthz_def jobs_values_def touch_def Let_def
        split: option.splits sum.splits)

lemma create_job_files:
  "p \<noteq> upload_path_of cfg uuid4 img \<Longrightarrow>
     files (snd (create_job cfg uuid4 img age_group phone s)) p = files s p"
  by (simp add: create_job_def Let_def split: prod.splits)

lemma create_job_threads:
  "set (map arg_img_path (threads (snd (create_job cfg uuid4 img age_group phone s))))
     \<subseteq> insert (upload_path_of cfg uuid4 img) (set (map arg_img_path (threads s)))"
  by (auto simp: create_job_def Let_def new_task_def split: prod.splits)

section \<open>Submitting a job\<close>

lemma chunk_nonempty: "rest \<noteq> [] \<Longrightarrow> take chunk_size rest \<noteq> []"
  by (simp add: chunk_size_def)

lemma stream_too_large:
  "rest \<noteq> [] \<Longrightarrow> limit < int (nread + length rest) \<Longrightarrow>
     fst (stream_to_disk limit rest nread written)"
proof (induction limit rest nread written rule: stream_to_disk.induct)
  case (1 limit rest nread written)
  let ?chunk = "take chunk_size rest"
  have ne: "?chunk \<noteq> []" using "1.prems"(1) by (rule chunk_nonempty)
  show ?case
  proof (cases "limit < int (nread + length ?chunk)")
    case True
    with ne show ?thesis by (subst stream_to_disk.simps) (simp add: Let_def)
  next
    case False
    have len: "length ?chunk + length (drop chunk_size rest) = length rest"
      by (metis append_take_drop_id length_append)
    from False "1.prems"(2) len have dne: "drop chunk_size rest \<noteq> []"
      by (cases "drop chunk_size rest") auto
    have "fst (stream_to_disk limit (drop chunk_size rest) (nread + length ?chunk) (written @ ?chunk))"
      using "1.IH" [OF refl ne _ dne] False "1.prems"(2) len by simp
    with ne False show ?thesis by (subst stream_to_disk.simps) (simp add: Let_def)
  qed
qed

lemma stream_fits:
  "int (nread + length rest) \<le> limit \<Longrightarrow>
     stream_to_disk limit rest nread written = (False, written @ rest)"
proof (induction limit rest nread written rule: stream_to_disk.induct)
  case (1 limit rest nread written)
  let ?chunk = "take chunk_size rest"
  have len: "length ?chunk + length (drop chunk_size rest) = length rest"
    by (metis append_take_drop_id length_append)
  show ?case
  proof (cases "?chunk = []")
    case True
    then have "rest = []" by (auto simp: chunk_size_def)
    then show ?thesis by (subst stream_to_disk.simps) simp
  next
    case False
    from "1.prems" len have fits: "\<not> limit < int (nread + length ?chunk)" by linarith
    have "stream_to_disk limit (drop chunk_size rest) (nread + length ?chunk) (written @ ?chunk)
            = (False, (written @ ?chunk) @ drop chunk_size rest)"
      using "1.IH" [OF refl False] fits "1.prems" len by simp
    with False fits show ?thesis by (subst stream_to_disk.simps) (simp add: Let_def)
  qed
qed

lemma stream_prefix:
  "\<exists>k \<le> length rest. snd (stream_to_disk limit rest nread written) = written @ take k rest
        \<and> (fst (stream_to_disk limit rest nread written) \<longrightarrow> k < length rest)"
proof (induction limit rest nread written rule: stream_to_disk.induct)
  case (1 limit rest nread written)
  let ?chunk = "take chunk_size rest"
  show ?case
  proof (cases "?chunk = []")
    case True
    then have "stream_to_disk limit rest nread written = (False, written)"
      by (subst stream_to_disk.simps) simp
    then show ?thesis by (intro exI [of _ 0]) simp
  next
    case False
    then have rne: "rest \<noteq> []" by auto
    show ?thesis
    proof (cases "limit < int (nread + length ?chunk)")
      case True
      with False have "stream_to_disk limit rest nread written = (True, written)"
        by (subst stream_to_disk.simps) (simp add: Let_def)
      with rne show ?thesis by (intro exI [of _ 0]) simp
    next
      case nl: False
      from "1.IH" [OF refl False] nl obtain k where
        k: "k \<le> length (drop chunk_size rest)"
        and sn: "snd (stream_to_disk limit (drop chunk_size rest) (nread + length ?chunk) (written @ ?chunk))
                 = (written @ ?chunk) @ take k (drop chunk_size rest)"
        and st: "fst (stream_to_disk limit (drop chunk_size rest) (nread + length ?chunk) (written @ ?chunk))
                 \<longrightarrow> k < length (drop chunk_size rest)"
        by auto
      have eq: "stream_to_disk limit rest nread written
                 = stream_to_disk limit (drop chunk_size rest) (nread + length ?chunk) (written @ ?chunk)"
        using False nl by (subst stream_to_disk.simps) (simp add: Let_def)
      show ?thesis
      proof (cases "chunk_size \<le> length rest")
        case True
        have "?chunk @ take k (drop chunk_size rest) = take (chunk_size + k) rest"
          by (simp add: take_add)
        with k sn st True eq show ?thesis
          by (intro exI [of _ "chunk_size + k"]) auto
      next
        case short: False
        then have "drop chunk_size rest = []" "?chunk = rest" by auto
        with k sn st eq rne show ?thesis
          by (intro exI [of _ "length rest"]) auto
      qed
    qed
  qed
qed

lemma create_job_bad_category:
  "age_group \<notin> {''Male'', ''Female'', ''Boy'', ''Girl''} \<Longrightarrow>
     create_job cfg uuid4 img age_group phone s = (Inl (HTTPException 400 ''Invalid age_group''), s)"
  by (simp add: create_job_def)

lemma create_job_bad_type:
  "age_group \<in> {''Male'', ''Female'', ''Boy'', ''Girl''} \<Longrightarrow>
   content_type img \<notin> {Some ''image/jpeg'', Some ''image/png''} \<Longrightarrow>
     create_job cfg uuid4 img age_group phone s =
       (Inl (HTTPException 400 ''Only JPEG/PNG images are accepted''), s)"
  by (simp add: create_job_def)

lemma create_job_too_large:
  assumes "age_group \<in> {''Male'', ''Female'', ''Boy'', ''Girl''}"
    and "content_type img \<in> {Some ''image/jpeg'', Some ''image/png''}"
    and "fst (stream_to_disk (MAX_UPLOAD_SIZE cfg) (body img) 0 [])"
  shows "create_job cfg uuid4 img age_group phone s =
       (Inl (HTTPException 413
               (''File too large (max '' @ str_int (MAX_UPLOAD_SIZE_MB cfg) @ ''MB)'')),
        s\<lparr>files := (files s)(upload_path_of cfg uuid4 img \<mapsto>
                 snd (stream_to_disk (MAX_UPLOAD_SIZE cfg) (body img) 0 []))\<rparr>)"
  using assms
  by (cases "stream_to_disk (MAX_UPLOAD_SIZE cfg) (body img) 0 []")
     (simp add: create_job_def Let_def del: insert_iff)

lemma create_job_accepted:
  assumes "age_group \<in> {''Male'', ''Female'', ''Boy'', ''Girl''}"
    and "content_type img \<in> {Some ''image/jpeg'', Some ''image/png''}"
    and "\<not> fst (stream_to_disk (MAX_UPLOAD_SIZE cfg) (body img) 0 [])"
  shows "create_job cfg uuid4 img age_group phone s =
       (Inr [(''job_id'', VStr uuid4)],
        s\<lparr>files := (files s)(upload_path_of cfg uuid4 img \<mapsto>
                 snd (stream_to_disk (MAX_UPLOAD_SIZE cfg) (body img) 0 [])),
          threads := threads s @ [new_task uuid4 (upload_path_of cfg uuid4 img) age_group phone]\<rparr>)"
  using assms
  by (cases "stream_to_disk (MAX_UPLOAD_SIZE cfg) (body img) 0 []")
     (simp add: create_job_def Let_def del: insert_iff)

lemma oversized_nonempty:
  "0 \<le> MAX_UPLOAD_SIZE_MB cfg \<Longrightarrow> MAX_UPLOAD_SIZE cfg < int (length bs) \<Longrightarrow> bs \<noteq> []"
  by (auto simp: MAX_UPLOAD_SIZE_def)

lemma create_job_registry:
  "JOBS (snd (create_job cfg uuid4 img age_group phone s)) = JOBS s"
  by (simp add: create_job_def Let_def split: prod.splits)

lemma create_job_error_threads:
  "fst (create_job cfg uuid4 img age_group phone s) = Inl e \<Longrightarrow>
     threads (snd (create_job cfg uuid4 img age_group phone s)) = threads s"
  by (auto simp: create_job_def Let_def split: prod.splits if_splits)

text \<open>
  C5. With a configured maximum that is not negative: a submission whose category is not
  one of the four values, or whose content type is not JPEG or PNG, is answered with a
  400; a submission that passes both checks and whose upload is larger than the maximum
  is answered with a 413; and whenever \<^verbatim>\<open>create_job\<close> answers with an error, the
  registry is as before and no pipeline thread has been started.
\<close>

theorem create_job_rejections:
  assumes "0 \<le> MAX_UPLOAD_SIZE_MB cfg"
  shows "(age_group \<notin> {''Male'', ''Female'', ''Boy'', ''Girl''}
            \<or> content_type img \<notin> {Some ''image/jpeg'', Some ''image/png''}
          \<longrightarrow> (\<exists>d. fst (create_job cfg uuid4 img age_group phone s) = Inl (HTTPException 400 d)))
       \<and> (age_group \<in> {''Male'', ''Female'', ''Boy'', ''Girl''}
            \<and> content_type img \<in> {Some ''image/jpeg'', Some ''image/png''}
            \<and> MAX_UPLOAD_SIZE cfg < int (length (body img))
          \<longrightarrow> (\<exists>d. fst (create_job cfg uuid4 img age_group phone s) = Inl (HTTPException 413 d)))
       \<and> (\<forall>e. fst (create_job cfg uuid4 img age_group phone s) = Inl e
          \<longrightarrow> JOBS (snd (create_job cfg uuid4 img age_group phone s)) = JOBS s
            \<and> threads (snd (create_job cfg uuid4 img age_group phone s)) = threads s)"
proof (intro conjI impI allI)
  assume "age_group \<notin> {''Male'', ''Female'', ''Boy'', ''Girl''}
            \<or> content_type img \<notin> {Some ''image/jpeg'', Some ''image/png''}"
  then show "\<exists>d. fst (create_job cfg uuid4 img age_group phone s) = Inl (HTTPException 400 d)"
    by (cases "age_group \<in> {''Male'', ''Female'', ''Boy'', ''Girl''}")
       (auto simp: create_job_bad_category create_job_bad_type simp del: insert_iff)
next
  assume a: "age_group \<in> {''Male'', ''Female'', ''Boy'', ''Girl''}
            \<and> content_type img \<in> {Some ''image/jpeg'', Some ''image/png''}
            \<and> MAX_UPLOAD_SIZE cfg < int (length (body img))"
  with assms have "body img \<noteq> []" by (auto dest: oversized_nonempty)
  with a have "fst (stream_to_disk (MAX_UPLOAD_SIZE cfg) (body img) 0 [])"
    by (intro stream_too_large) auto
  with a show "\<exists>d. fst (create_job cfg uuid4 img age_group phone s) = Inl (HTTPException 413 d)"
    by (simp add: create_job_too_large del: insert_iff)
next
  fix e
  assume "fst (create_job cfg uuid4 img age_group phone s) = Inl e"
  then show "JOBS (snd (create_job cfg uuid4 img age_group phone s)) = JOBS s"
    by (simp add: create_job_registry)
next
  fix e
  assume "fst (create_job cfg uuid4 img age_group phone s) = Inl e"
  then show "threads (snd (create_job cfg uuid4 img age_group phone s)) = threads s"
    by (rule create_job_error_threads)
qed

theorem create_job_rejections_witness:
  "0 \<le> MAX_UPLOAD_SIZE_MB cfg_local
   \<and> MAX_UPLOAD_SIZE cfg_local < int (length (body eleven_mb))
   \<and> (\<exists>d. fst (create_job cfg_local ''j1'' eleven_mb ''Boy'' None init)
             = Inl (HTTPException 413 d))
   \<and> JOBS (snd (create_job cfg_local ''j1'' eleven_mb ''Boy'' None init)) = JOBS init
   \<and> threads (snd (create_job cfg_local ''j1'' eleven_mb ''Boy'' None init)) = threads init"
proof -
  have h: "0 \<le> MAX_UPLOAD_SIZE_MB cfg_local"
    by (simp add: cfg_local_def)
  have big: "MAX_UPLOAD_SIZE cfg_local < int (length (body eleven_mb))"
    by (simp add: cfg_local_def eleven_mb_def MAX_UPLOAD_SIZE_def)
  have ok: "''Boy'' \<in> {''Male'', ''Female'', ''Boy'', ''Girl''}
            \<and> content_type eleven_mb \<in> {Some ''image/jpeg'', Some ''image/png''}"
    by (simp add: eleven_mb_def)
  from create_job_rejections [OF h, of "''Boy''" eleven_mb "''j1''" None init] ok big h
  show ?thesis by blast
qed

lemma exec_keeps_file:
  assumes "p \<in> dom (files s)" and "no_task_for p s" and "uploads_elsewhere cfg p [ev]"
  shows "p \<in> dom (files (exec cfg ev s)) \<and> no_task_for p (exec cfg ev s)"
proof (cases ev)
  case (Submit uuid4 img age_group phone)
  with assms(3) have ne: "p \<noteq> upload_path_of cfg uuid4 img" by simp
  from create_job_files [OF ne] assms(1)
  have "p \<in> dom (files (snd (create_job cfg uuid4 img age_group phone s)))"
    by (simp add: dom_def)
  moreover from create_job_threads [of cfg uuid4 img age_group phone s] ne assms(2)
  have "no_task_for p (snd (create_job cfg uuid4 img age_group phone s))"
    by (auto simp: no_task_for_def)
  ultimately show ?thesis using Submit by simp
next
  case (Step i env)
  show ?thesis
  proof (cases "i < length (threads s)")
    case True
    let ?t = "threads s ! i"
    obtain t' s' where ps: "pipeline_step cfg env ?t s = (t', s')"
      by (cases "pipeline_step cfg env ?t s")
    from True assms(2) have ne: "p \<noteq> arg_img_path ?t"
      by (auto simp: no_task_for_def)
    from pipeline_step_other_file [OF ne, of cfg env s] ps assms(1)
    have f: "p \<in> dom (files s')" by (simp add: dom_def)
    from pipeline_step_threads [of cfg env ?t s] ps have th: "threads s' = threads s" by simp
    from pipeline_step_task(2) [of cfg env ?t s] ps have ip: "arg_img_path t' = arg_img_path ?t" by simp
    have "map arg_img_path ((threads s)[i := t']) = map arg_img_path (threads s)"
      using True ip by (simp add: map_update list_update_same_conv)
    with assms(2) th have "no_task_for p (s'\<lparr>threads := (threads s')[i := t']\<rparr>)"
      by (simp add: no_task_for_def)
    with f Step True ps show ?thesis by simp
  next
    case False
    with Step assms show ?thesis by simp
  qed
next
  case (Poll job_id)
  with assms show ?thesis by (simp add: no_task_for_def)
next
  case (QR job_id)
  with assms show ?thesis by (simp add: no_task_for_def)
next
  case (Health now hb)
  with assms show ?thesis by (simp add: no_task_for_def)
qed

lemma uploads_elsewhere_Cons:
  "uploads_elsewhere cfg p (ev # evs) = (uploads_elsewhere cfg p [ev] \<and> uploads_elsewhere cfg p evs)"
  by (cases ev) simp_all

lemma run_keeps_file:
  "p \<in> dom (files s) \<Longrightarrow> no_task_for p s \<Longrightarrow> uploads_elsewhere cfg p evs \<Longrightarrow>
     p \<in> dom (files (run cfg evs s)) \<and> no_task_for p (run cfg evs s)"
proof (induction evs arbitrary: s)
  case Nil
  then show ?case by simp
next
  case (Cons ev evs)
  from Cons.prems(3) have e: "uploads_elsewhere cfg p [ev]" and es: "uploads_elsewhere cfg p evs"
    using uploads_elsewhere_Cons [of cfg p ev evs] by simp_all
  from exec_keeps_file [OF Cons.prems(1,2) e] Cons.IH [OF _ _ es] show ?case by simp
qed

text \<open>
  C9. When a submission that passes the category and content-type checks is rejected
  with a 413, the file at the upload path is on disk afterwards and holds a proper prefix
  of the upload (the chunks written before the limit was passed); the request calls
  \<^verbatim>\<open>os.remove\<close> on nothing and starts no thread. If no thread had that path before,
  then after any later events that do not upload to the same path the file is still on
  disk and still no thread has the path.
\<close>

theorem oversized_upload_file_remains:
  assumes "0 \<le> MAX_UPLOAD_SIZE_MB cfg"
    and "age_group \<in> {''Male'', ''Female'', ''Boy'', ''Girl''}"
    and "content_type img \<in> {Some ''image/jpeg'', Some ''image/png''}"
    and "MAX_UPLOAD_SIZE cfg < int (length (body img))"
    and "no_task_for (upload_path_of cfg uuid4 img) s"
  shows "(\<exists>d. fst (create_job cfg uuid4 img age_group phone s) = Inl (HTTPException 413 d))
       \<and> (\<exists>w. files (snd (create_job cfg uuid4 img age_group phone s)) (upload_path_of cfg uuid4 img)
                 = Some w
               \<and> length w < length (body img) \<and> w = take (length w) (body img))
       \<and> removed (snd (create_job cfg uuid4 img age_group phone s)) = removed s
       \<and> threads (snd (create_job cfg uuid4 img age_group phone s)) = threads s
       \<and> (\<forall>evs. uploads_elsewhere cfg (upload_path_of cfg uuid4 img) evs \<longrightarrow>
             upload_path_of cfg uuid4 img
               \<in> dom (files (run cfg evs (snd (create_job cfg uuid4 img age_group phone s))))
             \<and> no_task_for (upload_path_of cfg uuid4 img)
                 (run cfg evs (snd (create_job cfg uuid4 img age_group phone s))))"
proof -
  let ?p = "upload_path_of cfg uuid4 img"
  let ?r = "stream_to_disk (MAX_UPLOAD_SIZE cfg) (body img) 0 []"
  from assms(1,4) have "body img \<noteq> []" by (auto dest: oversized_nonempty)
  with assms(4) have big: "fst ?r" by (intro stream_too_large) auto
  note cj = create_job_too_large [OF assms(2,3) big, of uuid4 phone s]
  from stream_prefix [of "body img" "MAX_UPLOAD_SIZE cfg" 0 "[]"] big obtain k
    where k: "k < length (body img)" "snd ?r = take k (body img)" by auto
  then have w: "length (snd ?r) < length (body img) \<and> snd ?r = take (length (snd ?r)) (body img)"
    by simp
  let ?s' = "snd (create_job cfg uuid4 img age_group phone s)"
  have f: "files ?s' ?p = Some (snd ?r)" by (simp add: cj)
  have th: "threads ?s' = threads s" "removed ?s' = removed s" by (simp_all add: cj)
  have keep: "\<forall>evs. uploads_elsewhere cfg ?p evs \<longrightarrow>
                ?p \<in> dom (files (run cfg evs ?s')) \<and> no_task_for ?p (run cfg evs ?s')"
  proof (intro allI impI)
    fix evs
    assume e: "uploads_elsewhere cfg ?p evs"
    have "?p \<in> dom (files ?s')" using f by (simp add: dom_def)
    moreover have "no_task_for ?p ?s'" using assms(5) th by (simp add: no_task_for_def)
    ultimately show "?p \<in> dom (files (run cfg evs ?s')) \<and> no_task_for ?p (run cfg evs ?s')"
      using e by (rule run_keeps_file)
  qed
  show ?thesis using cj f w th keep by simp
qed

theorem oversized_upload_file_remains_witness:
  "0 \<le> MAX_UPLOAD_SIZE_MB cfg_local
   \<and> MAX_UPLOAD_SIZE cfg_local < int (length (body eleven_mb))
   \<and> no_task_for (upload_path_of cfg_local ''j1'' eleven_mb) init
   \<and> uploads_elsewhere cfg_local (upload_path_of cfg_local ''j1'' eleven_mb)
        [Submit ''j2'' png_upload ''Girl'' None, Step 0 env_ok, Step 0 env_ok, Step 0 env_ok]
   \<and> upload_path_of cfg_local ''j1'' eleven_mb
        \<in> dom (files (run cfg_local
              [Submit ''j2'' png_upload ''Girl'' None, Step 0 env_ok, Step 0 env_ok, Step 0 env_ok]
              (snd (create_job cfg_local ''j1'' eleven_mb ''Boy'' None init))))
   \<and> threads (snd (create_job cfg_local ''j1'' eleven_mb ''Boy'' None init)) = threads init"
proof -
  have h: "0 \<le> MAX_UPLOAD_SIZE_MB cfg_local"
    by (simp add: cfg_local_def)
  have big: "MAX_UPLOAD_SIZE cfg_local < int (length (body eleven_mb))"
    by (simp add: cfg_local_def eleven_mb_def MAX_UPLOAD_SIZE_def)
  have cat: "''Boy'' \<in> {''Male'', ''Female'', ''Boy'', ''Girl''}"
    by simp
  have ty: "content_type eleven_mb \<in> {Some ''image/jpeg'', Some ''image/png''}"
    by (simp add: eleven_mb_def)
  have nt: "no_task_for (upload_path_of cfg_local ''j1'' eleven_mb) init"
    by (simp add: no_task_for_def init_def)
  have el: "uploads_elsewhere cfg_local (upload_path_of cfg_local ''j1'' eleven_mb)
        [Submit ''j2'' png_upload ''Girl'' None, Step 0 env_ok, Step 0 env_ok, Step 0 env_ok]"
    by (simp add: upload_path_of_def UPLOAD_DIR_def path_join_def cfg_local_def eleven_mb_def
          png_upload_def)
  from oversized_upload_file_remains [OF h cat ty big nt, of None] el h big nt
  show ?thesis by blast
qed

section \<open>A run of the pipeline\<close>

lemma failure_env_remove [simp]:
  "image_failure (env\<lparr>remove_failure := r\<rparr>) = image_failure env"
  "video_failure (env\<lparr>remove_failure := r\<rparr>) = video_failure env"
  by (simp_all add: image_failure_def video_failure_def split: outcome.splits)

lemma new_task_simps [simp]:
  "arg_job_id (new_task job_id p a ph) = job_id"
  "arg_img_path (new_task job_id p a ph) = p"
  "arg_age_group (new_task job_id p a ph) = a"
  "arg_phone (new_task job_id p a ph) = ph"
  "pc (new_task job_id p a ph) = Registering"
  by (simp_all add: new_task_def)

lemma cleanup_pc [simp]: "cleanup env (t\<lparr>pc := x\<rparr>) s = cleanup env t s"
  by (simp add: cleanup_def split: option.splits)

lemma completed_fields_remove [simp]:
  "completed_fields cfg (env\<lparr>remove_failure := r\<rparr>) job_id = completed_fields cfg env job_id"
  by (simp add: completed_fields_def final_video_url_def final_image_url_def)

lemma exit_failed_registry:
  "map_of (JOBS (snd (exit_failed env t e s))) (arg_job_id t)
     = Some (failed_job e (arg_phone t) (finished_time env))"
  "pc (fst (exit_failed env t e s)) = Finished"
  by (simp_all add: exit_failed_eq AList.update_conv')

text \<open>
  C10. When a step of the pipeline raises (the image or the video stage fails, or the
  job is missing from the registry when its status is to be set), the registry entry of
  the job is, whatever it was before, exactly the record built by the handler: the seven
  fields \<^verbatim>\<open>status\<close> (\<^verbatim>\<open>failed\<close>), \<^verbatim>\<open>video_url\<close>, \<^verbatim>\<open>image_url\<close>,
  \<^verbatim>\<open>video_path\<close>, \<^verbatim>\<open>error\<close>, \<^verbatim>\<open>phone\<close> and \<^verbatim>\<open>failed_at\<close>. It has a
  \<^verbatim>\<open>failed_at\<close> time and no \<^verbatim>\<open>started_at\<close>.
\<close>

theorem failed_step_replaces_record:
  assumes "pc t = ImageGen \<and> image_failure env = Some e
         \<or> pc t = VideoGen \<and> video_failure env = Some e
         \<or> (pc t = ImageGen \<and> image_failure env = None
               \<or> pc t = VideoGen \<and> video_failure env = None)
            \<and> map_of (JOBS s) (arg_job_id t) = None \<and> e = KeyError (arg_job_id t)"
  shows "map_of (JOBS (snd (pipeline_step cfg env t s))) (arg_job_id t)
           = Some (failed_job e (arg_phone t) (finished_time env))
       \<and> map fst (failed_job e (arg_phone t) (finished_time env))
           = [''status'', ''video_url'', ''image_url'', ''video_path'', ''error'', ''phone'',
              ''failed_at'']
       \<and> map_of (failed_job e (arg_phone t) (finished_time env)) ''status''
           = Some (VStr ''failed'')
       \<and> map_of (failed_job e (arg_phone t) (finished_time env)) ''failed_at''
           = Some (VFloat (finished_time env))
       \<and> map_of (failed_job e (arg_phone t) (finished_time env)) ''started_at'' = None
       \<and> pc (fst (pipeline_step cfg env t s)) = Finished"
proof -
  from assms have "pipeline_step cfg env t s = exit_failed env t e s"
    by (auto simp: pipeline_step_eq)
  then show ?thesis
    by (simp add: exit_failed_registry) (simp add: failed_job_def)
qed

theorem failed_step_replaces_record_witness:
  "pc (task_j1\<lparr>pc := ImageGen\<rparr>) = ImageGen
   \<and> image_failure env_image_fails = Some (Exn ''TimeoutError'' ''timed out'')
   \<and> map_of (JOBS registered_state) ''j1'' = Some (initial_job None 1)
   \<and> map_of (initial_job None 1) ''started_at'' = Some (VFloat 1)
   \<and> map_of (JOBS (snd (pipeline_step cfg_local env_image_fails (task_j1\<lparr>pc := ImageGen\<rparr>)
                          registered_state))) ''j1''
       = Some [(''status'', VStr ''failed''), (''video_url'', VNone), (''image_url'', VNone),
               (''video_path'', VNone), (''error'', VStr ''TimeoutError: timed out''),
               (''phone'', VNone), (''failed_at'', VFloat 2)]"
proof -
  have h: "pc (task_j1\<lparr>pc := ImageGen\<rparr>) = ImageGen
           \<and> image_failure env_image_fails = Some (Exn ''TimeoutError'' ''timed out'')"
    by (simp add: image_failure_def env_image_fails_def env_ok_def)
  have r: "map_of (JOBS registered_state) ''j1'' = Some (initial_job None 1)"
    by (simp add: registered_state_def pipeline_step_eq task_j1_def new_task_def env_ok_def
          AList.update_conv')
  from failed_step_replaces_record [of "task_j1\<lparr>pc := ImageGen\<rparr>" env_image_fails
         "Exn ''TimeoutError'' ''timed out''" registered_state cfg_local] h r
  show ?thesis
    by (simp add: task_j1_def new_task_def failed_job_def env_image_fails_def env_ok_def
          initial_job_def)
qed

lemma run_pipeline_cases:
  "run_pipeline cfg env job_id p a ph s =
     (let t = new_task job_id p a ph;
          s1 = put job_id (initial_job ph (started_time env)) s
      in case image_failure env of
           Some e \<Rightarrow> cleanup env t (put job_id (failed_job e ph (finished_time env)) s1)
         | None \<Rightarrow>
             (let s2 = put job_id
                         (AList.update ''status'' (VStr ''video'')
                            (initial_job ph (started_time env))) s1
              in case video_failure env of
                   Some e \<Rightarrow> cleanup env t (put job_id (failed_job e ph (finished_time env)) s2)
                 | None \<Rightarrow>
                     cleanup env t
                       (put job_id
                          (set_fields (completed_fields cfg env job_id)
                             (AList.update ''status'' (VStr ''video'')
                                (initial_job ph (started_time env)))) s2)))"
  by (simp add: run_pipeline_def pipeline_step_eq exit_failed_eq Let_def
        AList.update_conv' split: option.splits)

lemma cleanup_removed:
  "removed (cleanup env t s)
     = removed s @ (if arg_img_path t \<in> dom (files s) then [arg_img_path t] else [])"
  by (simp add: cleanup_def split: option.splits)

lemma cleanup_files:
  "files (cleanup env t s)
     = (if arg_img_path t \<in> dom (files s) \<and> remove_failure env = None
        then (files s)(arg_img_path t := None) else files s)"
  by (auto simp: cleanup_def split: option.splits)

text \<open>
  C8. Whatever the generation calls, the storing of the media and \<^verbatim>\<open>os.remove\<close> do,
  a run of \<^verbatim>\<open>_run_pipeline\<close> calls \<^verbatim>\<open>os.remove\<close> on its upload exactly once when
  the file is there (and not at all when it is not); afterwards the file is gone unless
  the removal raised; and what the registry holds after the run does not depend on
  whether the removal raised.
\<close>

theorem upload_removed_once:
  "removed (run_pipeline cfg env job_id p a ph s)
     = removed s @ (if p \<in> dom (files s) then [p] else [])
   \<and> files (run_pipeline cfg env job_id p a ph s)
     = (if p \<in> dom (files s) \<and> remove_failure env = None then (files s)(p := None)
        else files s)
   \<and> JOBS (run_pipeline cfg (env\<lparr>remove_failure := r\<rparr>) job_id p a ph s)
     = JOBS (run_pipeline cfg env job_id p a ph s)"
  by (cases "image_failure env"; cases "video_failure env")
     (simp_all add: run_pipeline_cases Let_def cleanup_removed cleanup_files)


theorem upload_removed_once_witness:
  "removed (run_pipeline cfg_local env_ok ''j1'' ''/app/uploads/j1.png'' ''Boy'' None
              uploaded_state) = [''/app/uploads/j1.png'']
   \<and> files (run_pipeline cfg_local env_ok ''j1'' ''/app/uploads/j1.png'' ''Boy'' None
              uploaded_state) ''/app/uploads/j1.png'' = None
   \<and> removed (run_pipeline cfg_local env_image_fails ''j1'' ''/app/uploads/j1.png'' ''Boy'' None
              uploaded_state) = [''/app/uploads/j1.png'']"
  using upload_removed_once [of cfg_local env_ok "''j1''" "''/app/uploads/j1.png''" "''Boy''"
          None uploaded_state None]
        upload_removed_once [of cfg_local env_image_fails "''j1''" "''/app/uploads/j1.png''"
          "''Boy''" None uploaded_state None]
  by (simp add: uploaded_state_def init_def env_ok_def env_image_fails_def)

section \<open>The lock\<close>

lemma job_status_guarded: "unguarded (snd (job_status job_id s)) = unguarded s"
  by (simp add: job_status_def jobs_get_def acquire_def release_def touch_def Let_def
        split: option.splits)

lemma job_qr_guarded: "unguarded (snd (job_qr g job_id s)) = unguarded s"
  by (simp add: job_qr_def jobs_get_def acquire_def release_def touch_def Let_def
        split: option.splits)

lemma create_job_guarded:
  "unguarded (snd (create_job cfg uuid4 img age_group phone s)) = unguarded s"
  by (simp add: create_job_def Let_def split: prod.splits)

lemma pipeline_step_guarded: "unguarded (snd (pipeline_step cfg env t s)) = unguarded s"
  by (simp add: pipeline_step_eq exit_failed_eq split: pc.splits option.splits)

lemma healthz_unguarded:
  "\<not> lock_held s \<Longrightarrow> unguarded (snd (healthz cfg now hb s)) = Suc (unguarded s)"
  by (simp add: healthz_def jobs_values_def touch_def Let_def split: option.splits sum.splits)

text \<open>
  C7 fails on \<^verbatim>\<open>healthz\<close>: on the fresh process, \<^verbatim>\<open>healthz\<close> makes one access to the
  registry without holding the lock, whereas \<^verbatim>\<open>job_status\<close> and \<^verbatim>\<open>job_qr\<close> make none.
\<close>

theorem healthz_reads_without_lock:
  "unguarded (snd (healthz cfg_local 0 None init)) = 1
   \<and> unguarded (snd (job_status ''j1'' init)) = 0
   \<and> unguarded (snd (job_qr (\<lambda>v. v) ''j1'' init)) = 0"
  by (simp add: job_status_guarded job_qr_guarded healthz_unguarded init_def)

theorem healthz_reads_without_lock_witness:
  "\<not> lock_held init
   \<and> unguarded (snd (healthz cfg_local 0 None init)) = Suc (unguarded init)"
  using healthz_reads_without_lock by (simp add: init_def)

section \<open>The registry over time\<close>

lemma set_fields_completed:
  "map_of (set_fields (completed_fields cfg env job_id) j) ''status'' = Some (VStr ''completed'')"
  "map_of (set_fields (completed_fields cfg env job_id) j) ''video_url''
     = Some (VStr (final_video_url cfg env job_id))"
  "map_of (set_fields (completed_fields cfg env job_id) j) ''image_url''
     = Some (VStr (final_image_url cfg env job_id))"
  by (simp_all add: completed_fields_def AList.update_conv')

lemma final_urls_nonempty:
  "presign_nonempty cfg env \<Longrightarrow> final_video_url cfg env job_id \<noteq> []"
  "presign_nonempty cfg env \<Longrightarrow> final_image_url cfg env job_id \<noteq> []"
  by (auto simp: presign_nonempty_def final_video_url_def final_image_url_def
        s3_url_for_key_def Let_def)

text \<open>What one step of a thread can do to the registry.\<close>

lemma pipeline_step_writes:
  "\<exists>j'. (JOBS (snd (pipeline_step cfg env t s)) = JOBS s
            \<or> JOBS (snd (pipeline_step cfg env t s)) = AList.update (arg_job_id t) j' (JOBS s))
        \<and> (\<exists>st \<in> job_states. map_of j' ''status'' = Some (VStr st))
        \<and> (presign_nonempty cfg env \<longrightarrow> urls_set j')"
proof (cases "pc t")
  case Registering
  then show ?thesis
    by (intro exI [of _ "initial_job (arg_phone t) (started_time env)"])
       (simp add: pipeline_step_eq initial_job_def job_states_def urls_set_def)
next
  case ImageGen
  show ?thesis
  proof (cases "image_failure env")
    case (Some e)
    with ImageGen show ?thesis
      by (intro exI [of _ "failed_job e (arg_phone t) (finished_time env)"])
         (simp add: pipeline_step_eq exit_failed_eq failed_job_def job_states_def urls_set_def)
  next
    case None
    show ?thesis
    proof (cases "map_of (JOBS s) (arg_job_id t)")
      case n: None
      with ImageGen None show ?thesis
        by (intro exI [of _ "failed_job (KeyError (arg_job_id t)) (arg_phone t) (finished_time env)"])
           (simp add: pipeline_step_eq exit_failed_eq failed_job_def job_states_def urls_set_def)
    next
      case (Some j)
      with ImageGen None show ?thesis
        by (intro exI [of _ "AList.update ''status'' (VStr ''video'') j"])
           (simp add: pipeline_step_eq job_states_def urls_set_def AList.update_conv')
    qed
  qed
next
  case VideoGen
  show ?thesis
  proof (cases "video_failure env")
    case (Some e)
    with VideoGen show ?thesis
      by (intro exI [of _ "failed_job e (arg_phone t) (finished_time env)"])
         (simp add: pipeline_step_eq exit_failed_eq failed_job_def job_states_def urls_set_def)
  next
    case None
    show ?thesis
    proof (cases "map_of (JOBS s) (arg_job_id t)")
      case n: None
      with VideoGen None show ?thesis
        by (intro exI [of _ "failed_job (KeyError (arg_job_id t)) (arg_phone t) (finished_time env)"])
           (simp add: pipeline_step_eq exit_failed_eq failed_job_def job_states_def urls_set_def)
    next
      case (Some j)
      with VideoGen None show ?thesis
        by (intro exI [of _ "set_fields (completed_fields cfg env (arg_job_id t)) j"])
           (simp add: pipeline_step_eq job_states_def urls_set_def set_fields_completed
              dict_get_def final_urls_nonempty)
    qed
  qed
next
  case Finished
  then show ?thesis
    by (intro exI [of _ "initial_job None 0"])
       (simp add: pipeline_step_eq initial_job_def job_states_def urls_set_def)
qed

lemma exec_registry:
  "JOBS (exec cfg ev s) = JOBS s
   \<or> (\<exists>i env. ev = Step i env \<and> i < length (threads s)
        \<and> JOBS (exec cfg ev s) = JOBS (snd (pipeline_step cfg env (threads s ! i) s)))"
proof (cases ev)
  case (Submit uuid4 img age_group phone)
  then show ?thesis by (simp add: create_job_registry)
next
  case (Step i env)
  then show ?thesis by (cases "i < length (threads s)") (auto split: prod.splits)
qed simp_all

lemma exec_writes:
  "JOBS (exec cfg ev s) = JOBS s
   \<or> (\<exists>i env k j'. ev = Step i env \<and> JOBS (exec cfg ev s) = AList.update k j' (JOBS s)
        \<and> (\<exists>st \<in> job_states. map_of j' ''status'' = Some (VStr st))
        \<and> (presign_nonempty cfg env \<longrightarrow> urls_set j'))"
proof -
  from exec_registry [of cfg ev s] show ?thesis
  proof
    assume "JOBS (exec cfg ev s) = JOBS s"
    then show ?thesis by simp
  next
    assume "\<exists>i env. ev = Step i env \<and> i < length (threads s)
        \<and> JOBS (exec cfg ev s) = JOBS (snd (pipeline_step cfg env (threads s ! i) s))"
    then obtain i env where e: "ev = Step i env"
      and j: "JOBS (exec cfg ev s) = JOBS (snd (pipeline_step cfg env (threads s ! i) s))"
      by blast
    from pipeline_step_writes [of cfg env "threads s ! i" s] j e show ?thesis
      by (metis (no_types, lifting))
  qed
qed

lemma exec_pollable:
  assumes "pollable s k"
  shows "pollable (exec cfg ev s) k"
proof -
  from exec_writes [of cfg ev s] consider
      (same) "JOBS (exec cfg ev s) = JOBS s"
    | (upd) ka j' st where "JOBS (exec cfg ev s) = AList.update ka j' (JOBS s)"
        "st \<in> job_states" "map_of j' ''status'' = Some (VStr st)"
    by blast
  then show ?thesis
  proof cases
    case same
    with assms show ?thesis by (simp add: pollable_def)
  next
    case upd
    with assms show ?thesis
      by (cases "k = ka") (simp_all add: pollable_def AList.update_conv')
  qed
qed

lemma run_pollable: "pollable s k \<Longrightarrow> pollable (run cfg evs s) k"
  by (induction evs arbitrary: s) (simp_all add: exec_pollable)

lemma exec_keeps_job:
  assumes "map_of (JOBS s) k \<noteq> None"
  shows "map_of (JOBS (exec cfg ev s)) k \<noteq> None"
proof -
  from exec_writes [of cfg ev s] consider
      (same) "JOBS (exec cfg ev s) = JOBS s"
    | (upd) ka j' where "JOBS (exec cfg ev s) = AList.update ka j' (JOBS s)"
    by blast
  then show ?thesis
  proof cases
    case same
    with assms show ?thesis by simp
  next
    case upd
    with assms show ?thesis by (simp add: AList.update_conv')
  qed
qed

lemma run_keeps_job:
  "map_of (JOBS s) k \<noteq> None \<Longrightarrow> map_of (JOBS (run cfg evs s)) k \<noteq> None"
proof (induction evs arbitrary: s)
  case Nil
  then show ?case by simp
next
  case (Cons ev evs)
  from exec_keeps_job [OF Cons.prems] have "map_of (JOBS (exec cfg ev s)) k \<noteq> None" .
  from Cons.IH [OF this] show ?case by simp
qed

lemma run_append: "run cfg (evs @ evs') s = run cfg evs' (run cfg evs s)"
  by (induction evs arbitrary: s) simp_all

lemma job_status_fst:
  "fst (job_status job_id s) =
     (case map_of (JOBS s) job_id of
        None \<Rightarrow> Inr [(''status'', VStr ''queued'')]
      | Some j \<Rightarrow>
          if j = [] then Inr [(''status'', VStr ''queued'')]
          else (case map_of j ''status'' of
                  None \<Rightarrow> Inl internal_error
                | Some st \<Rightarrow>
                    if st = VStr ''completed''
                    then Inr [(''status'', st), (''error'', dict_get j ''error''),
                              (''video_url'', dict_get j ''video_url''),
                              (''image_url'', dict_get j ''image_url''),
                              (''qr_url'', VStr (''/api/jobs/'' @ job_id @ ''/qr''))]
                    else Inr [(''status'', st), (''error'', dict_get j ''error'')]))"
  by (simp add: job_status_def jobs_get_def acquire_def release_def touch_def Let_def
        split: option.splits)

lemma pollable_poll:
  "pollable s k \<Longrightarrow>
     map_of (JOBS s) k = None \<and> fst (job_status k s) = Inr [(''status'', VStr ''queued'')]
   \<or> (\<exists>st \<in> job_states. status_of s k = Some (VStr st) \<and> poll_status k s = Some (VStr st))"
  by (auto simp: pollable_def poll_status_def status_of_def job_status_fst
        split: option.splits val.splits)


lemma create_job_valid:
  assumes "age_group \<in> {''Male'', ''Female'', ''Boy'', ''Girl''}"
    and "content_type img \<in> {Some ''image/jpeg'', Some ''image/png''}"
    and "int (length (body img)) \<le> MAX_UPLOAD_SIZE cfg"
  shows "create_job cfg uuid4 img age_group phone s =
       (Inr [(''job_id'', VStr uuid4)],
        s\<lparr>files := (files s)(upload_path_of cfg uuid4 img \<mapsto> body img),
          threads := threads s @ [new_task uuid4 (upload_path_of cfg uuid4 img) age_group phone]\<rparr>)"
proof -
  from assms(3) have "stream_to_disk (MAX_UPLOAD_SIZE cfg) (body img) 0 [] = (False, body img)"
    using stream_fits [of 0 "body img" "MAX_UPLOAD_SIZE cfg" "[]"] by simp
  with create_job_accepted [OF assms(1,2), of cfg uuid4 phone s] show ?thesis by simp
qed

lemma exec_first_step:
  "status_of (exec cfg (Step (length ts) env)
        (s\<lparr>files := f, threads := ts @ [new_task job_id p a ph]\<rparr>)) job_id
     = Some (VStr ''image'')"
  by (simp add: pipeline_step_eq status_of_def AList.update_conv' initial_job_def
        nth_append)

text \<open>
  C1 (as amended). For a submission that passes the checks and whose identifier is not in
  the registry: \<^verbatim>\<open>create_job\<close> answers with the identifier and leaves the registry as
  it is; a poll right after it answers \<^verbatim>\<open>queued\<close>; the first step of the started
  thread stores the job with status \<^verbatim>\<open>image\<close>; after any later events, a poll answers
  either \<^verbatim>\<open>queued\<close> (the job is not yet stored) or the stored status, which is one of
  \<^verbatim>\<open>image\<close>, \<^verbatim>\<open>video\<close>, \<^verbatim>\<open>completed\<close>, \<^verbatim>\<open>failed\<close>, and never an error; and once
  the job is stored it stays stored.
\<close>

theorem submitted_job_pollable:
  assumes "age_group \<in> {''Male'', ''Female'', ''Boy'', ''Girl''}"
    and "content_type img \<in> {Some ''image/jpeg'', Some ''image/png''}"
    and "int (length (body img)) \<le> MAX_UPLOAD_SIZE cfg"
    and "map_of (JOBS s) uuid4 = None"
  shows "fst (create_job cfg uuid4 img age_group phone s) = Inr [(''job_id'', VStr uuid4)]
       \<and> JOBS (snd (create_job cfg uuid4 img age_group phone s)) = JOBS s
       \<and> fst (job_status uuid4 (snd (create_job cfg uuid4 img age_group phone s)))
           = Inr [(''status'', VStr ''queued'')]
       \<and> (\<forall>env. status_of (exec cfg (Step (length (threads s)) env)
                     (snd (create_job cfg uuid4 img age_group phone s))) uuid4
                  = Some (VStr ''image''))
       \<and> (\<forall>evs.
             map_of (JOBS (run cfg evs (snd (create_job cfg uuid4 img age_group phone s)))) uuid4
               = None
             \<and> fst (job_status uuid4
                      (run cfg evs (snd (create_job cfg uuid4 img age_group phone s))))
                 = Inr [(''status'', VStr ''queued'')]
           \<or> (\<exists>st \<in> job_states.
                 status_of (run cfg evs (snd (create_job cfg uuid4 img age_group phone s))) uuid4
                   = Some (VStr st)
                 \<and> poll_status uuid4
                      (run cfg evs (snd (create_job cfg uuid4 img age_group phone s)))
                   = Some (VStr st)))
       \<and> (\<forall>evs evs'.
             map_of (JOBS (run cfg evs (snd (create_job cfg uuid4 img age_group phone s)))) uuid4
               \<noteq> None
             \<longrightarrow> map_of (JOBS (run cfg (evs @ evs')
                     (snd (create_job cfg uuid4 img age_group phone s)))) uuid4 \<noteq> None)"
proof -
  let ?s' = "snd (create_job cfg uuid4 img age_group phone s)"
  note cj = create_job_valid [OF assms(1-3), of uuid4 phone s]
  have r: "fst (create_job cfg uuid4 img age_group phone s) = Inr [(''job_id'', VStr uuid4)]"
    by (simp add: cj)
  have j: "JOBS ?s' = JOBS s" by (simp add: cj)
  with assms(4) have p: "pollable ?s' uuid4" by (simp add: pollable_def)
  have q: "fst (job_status uuid4 ?s') = Inr [(''status'', VStr ''queued'')]"
    using j assms(4) by (simp add: job_status_fst)
  have f: "\<forall>env. status_of (exec cfg (Step (length (threads s)) env) ?s') uuid4
                  = Some (VStr ''image'')"
    by (simp only: cj snd_conv exec_first_step) simp
  have l: "\<forall>evs. map_of (JOBS (run cfg evs ?s')) uuid4 = None
             \<and> fst (job_status uuid4 (run cfg evs ?s')) = Inr [(''status'', VStr ''queued'')]
           \<or> (\<exists>st \<in> job_states. status_of (run cfg evs ?s') uuid4 = Some (VStr st)
                 \<and> poll_status uuid4 (run cfg evs ?s') = Some (VStr st))"
    using run_pollable [OF p] pollable_poll by blast
  have k: "\<forall>evs evs'. map_of (JOBS (run cfg evs ?s')) uuid4 \<noteq> None
             \<longrightarrow> map_of (JOBS (run cfg (evs @ evs') ?s')) uuid4 \<noteq> None"
    by (intro allI impI) (simp only: run_append, erule run_keeps_job)
  from r j q f l k show ?thesis by blast
qed

lemma png_upload_valid:
  "''Boy'' \<in> {''Male'', ''Female'', ''Boy'', ''Girl''}"
  "content_type png_upload \<in> {Some ''image/jpeg'', Some ''image/png''}"
  "int (length (body png_upload)) \<le> MAX_UPLOAD_SIZE cfg_local"
  by (simp_all add: png_upload_def cfg_local_def MAX_UPLOAD_SIZE_def)

theorem submitted_job_pollable_witness:
  "''Boy'' \<in> {''Male'', ''Female'', ''Boy'', ''Girl''}
   \<and> content_type png_upload \<in> {Some ''image/jpeg'', Some ''image/png''}
   \<and> int (length (body png_upload)) \<le> MAX_UPLOAD_SIZE cfg_local
   \<and> map_of (JOBS init) ''j1'' = None
   \<and> fst (create_job cfg_local ''j1'' png_upload ''Boy'' None init) = Inr [(''job_id'', VStr ''j1'')]
   \<and> fst (job_status ''j1'' (snd (create_job cfg_local ''j1'' png_upload ''Boy'' None init)))
       = Inr [(''status'', VStr ''queued'')]
   \<and> status_of (exec cfg_local (Step (length (threads init)) env_ok)
                  (snd (create_job cfg_local ''j1'' png_upload ''Boy'' None init))) ''j1''
       = Some (VStr ''image'')"
proof -
  have i: "map_of (JOBS init) ''j1'' = None" by (simp add: init_def)
  from submitted_job_pollable [OF png_upload_valid i, of None] png_upload_valid i
  show ?thesis by blast
qed

text \<open>
  C1 as stated fails: right after a valid submission the poll of the returned identifier
  answers \<^verbatim>\<open>queued\<close>, not \<^verbatim>\<open>image\<close> or a later state.
\<close>

theorem poll_after_submit_counterexample:
  "fst (create_job cfg_local ''j1'' png_upload ''Boy'' None init) = Inr [(''job_id'', VStr ''j1'')]
   \<and> fst (job_status ''j1'' (snd (create_job cfg_local ''j1'' png_upload ''Boy'' None init)))
       = Inr [(''status'', VStr ''queued'')]"
  by (simp add: create_job_valid [OF png_upload_valid] job_status_fst init_def)

section \<open>Completed jobs\<close>

lemma exec_urls:
  assumes "\<forall>k j. map_of (JOBS s) k = Some j \<longrightarrow> urls_set j"
    and "\<forall>i env. ev = Step i env \<longrightarrow> presign_nonempty cfg env"
  shows "\<forall>k j. map_of (JOBS (exec cfg ev s)) k = Some j \<longrightarrow> urls_set j"
proof -
  from exec_writes [of cfg ev s] consider
      (same) "JOBS (exec cfg ev s) = JOBS s"
    | (upd) i env ka j' where "ev = Step i env"
        "JOBS (exec cfg ev s) = AList.update ka j' (JOBS s)"
        "presign_nonempty cfg env \<longrightarrow> urls_set j'"
    by blast
  then show ?thesis
  proof cases
    case same
    with assms(1) show ?thesis by simp
  next
    case upd
    with assms(2) have "urls_set j'" by blast
    with assms(1) upd(2) show ?thesis by (simp add: AList.update_conv')
  qed
qed

lemma run_urls:
  "\<forall>k j. map_of (JOBS s) k = Some j \<longrightarrow> urls_set j \<Longrightarrow>
   \<forall>i env. Step i env \<in> set evs \<longrightarrow> presign_nonempty cfg env \<Longrightarrow>
     \<forall>k j. map_of (JOBS (run cfg evs s)) k = Some j \<longrightarrow> urls_set j"
proof (induction evs arbitrary: s)
  case Nil
  then show ?case by simp
next
  case (Cons ev evs)
  have "\<forall>k j. map_of (JOBS (exec cfg ev s)) k = Some j \<longrightarrow> urls_set j"
    using Cons.prems by (intro exec_urls) auto
  moreover have "\<forall>i env. Step i env \<in> set evs \<longrightarrow> presign_nonempty cfg env"
    using Cons.prems(2) by auto
  ultimately show ?case using Cons.IH by simp
qed

text \<open>
  Between the blocks under the lock, every stored job whose status is \<^verbatim>\<open>completed\<close>
  has both URLs set. Where S3 is used without a CDN domain the URLs are the presigned
  ones that S3 answers, taken to be non-empty.
\<close>

lemma stored_completed_jobs_have_urls:
  assumes "\<forall>i env. Step i env \<in> set evs \<longrightarrow> presign_nonempty cfg env"
  shows "\<forall>job_id j. map_of (JOBS (run cfg evs init)) job_id = Some j
             \<and> map_of j ''status'' = Some (VStr ''completed'')
           \<longrightarrow> is_url (dict_get j ''video_url'') \<and> is_url (dict_get j ''image_url'')"
proof -
  have "\<forall>k j. map_of (JOBS init) k = Some j \<longrightarrow> urls_set j"
    by (simp add: init_def)
  from run_urls [OF this assms]
  have "\<forall>k j. map_of (JOBS (run cfg evs init)) k = Some j \<longrightarrow> urls_set j" .
  then show ?thesis by (auto simp: urls_set_def)
qed

lemma full_run_registry:
  "JOBS (run cfg_local full_run init) =
     [(''j1'', [(''status'', VStr ''completed''),
               (''video_url'', VStr ''/media/videos/j1.mp4''),
               (''image_url'', VStr ''/media/images/j1.jpeg''),
               (''video_path'', VStr ''/app/result/videos/j1.mp4''),
               (''error'', VNone), (''phone'', VNone), (''started_at'', VFloat 1),
               (''completed_at'', VFloat 2)])]"
  apply (simp add: full_run_def create_job_valid [OF png_upload_valid] del: exec.simps(2))
  apply (simp add: pipeline_step_eq init_def image_failure_def video_failure_def env_ok_def
        initial_job_def completed_fields_def final_video_url_def final_image_url_def
        local_video_path_def path_join_def basename_def cfg_local_def new_task_def put_def
        cleanup_def upload_path_of_def UPLOAD_DIR_def png_upload_def)
  done

text \<open>
  A poll that reads the dictionary as it was found is \<^verbatim>\<open>job_status\<close>; the
  \<^verbatim>\<open>completed\<close> block ends in the record that the step of the pipeline stores; and
  the example job holds \<open>video_record\<close> when its \<^verbatim>\<open>completed\<close> block starts.
\<close>

lemma job_status_reads_still:
  "map_of (JOBS s) job_id = Some j \<Longrightarrow>
     job_status_reads job_id (\<lambda>i. j) = fst (job_status job_id s)"
  by (simp add: job_status_reads_def job_status_fst Let_def split: option.splits)

lemma block_states_nonempty [simp]: "block_states kvs j \<noteq> []"
  by (cases kvs) auto

lemma last_block_states: "last (block_states kvs j) = set_fields kvs j"
  by (induction kvs j rule: block_states.induct) simp_all

lemma completed_block_ends:
  "last (completed_block cfg env job_id j) = set_fields (completed_fields cfg env job_id) j"
  by (simp add: completed_block_def last_block_states)

lemma registered_then_video:
  "map_of (JOBS (snd (pipeline_step cfg_local env_ok (task_j1\<lparr>pc := ImageGen\<rparr>)
                    registered_state))) ''j1'' = Some video_record"
  by (simp add: registered_state_def pipeline_step_eq task_j1_def new_task_def env_ok_def
        image_failure_def video_record_def AList.update_conv')

lemma completed_block_j1:
  "completed_block cfg_local env_ok ''j1'' video_record ! 1
     = [(''status'', VStr ''completed''), (''video_url'', VNone), (''image_url'', VNone),
        (''video_path'', VNone), (''error'', VNone), (''phone'', VNone),
        (''started_at'', VFloat 1)]"
  "completed_block cfg_local env_ok ''j1'' video_record ! 2
     = [(''status'', VStr ''completed''), (''video_url'', VStr ''/media/videos/j1.mp4''),
        (''image_url'', VNone), (''video_path'', VNone), (''error'', VNone),
        (''phone'', VNone), (''started_at'', VFloat 1)]"
  by (simp_all add: completed_block_def completed_fields_def video_record_def initial_job_def
        final_video_url_def final_image_url_def local_video_path_def path_join_def
        basename_def cfg_local_def env_ok_def)

text \<open>
  C4 fails on a poll that overlaps the \<^verbatim>\<open>completed\<close> block. The poll of job \<^verbatim>\<open>j1\<close>
  has fetched the dictionary under the lock and reads it after the block has assigned the
  status (line 242) and before it assigns the video URL (line 243): it answers
  \<^verbatim>\<open>completed\<close> with both URLs \<^verbatim>\<open>None\<close>. Reading after line 243 and before line 244,
  it answers \<^verbatim>\<open>completed\<close> with the video URL set and the image URL \<^verbatim>\<open>None\<close>.
\<close>

theorem poll_during_completed_block:
  "job_status_reads ''j1'' (\<lambda>i. completed_block cfg_local env_ok ''j1'' video_record ! 1)
     = Inr [(''status'', VStr ''completed''), (''error'', VNone), (''video_url'', VNone),
            (''image_url'', VNone), (''qr_url'', VStr ''/api/jobs/j1/qr'')]
   \<and> job_status_reads ''j1'' (\<lambda>i. completed_block cfg_local env_ok ''j1'' video_record ! 2)
     = Inr [(''status'', VStr ''completed''), (''error'', VNone),
            (''video_url'', VStr ''/media/videos/j1.mp4''), (''image_url'', VNone),
            (''qr_url'', VStr ''/api/jobs/j1/qr'')]"
  by (simp only: completed_block_j1) (simp add: job_status_reads_def dict_get_def)

theorem poll_during_completed_block_witness:
  "dict_get (completed_block cfg_local env_ok ''j1'' video_record ! 1) ''status''
     = VStr ''completed''
   \<and> job_status_reads ''j1'' (\<lambda>i. completed_block cfg_local env_ok ''j1'' video_record ! 1)
     = Inr [(''status'', VStr ''completed''), (''error'', VNone), (''video_url'', VNone),
            (''image_url'', VNone), (''qr_url'', VStr ''/api/jobs/j1/qr'')]"
  using poll_during_completed_block
  by (simp only: completed_block_j1) (simp add: dict_get_def)

section \<open>The state machine of a job\<close>

lemma status_of_cleanup [simp]: "status_of (cleanup env t s) k = status_of s k"
  by (simp add: status_of_def)

lemma status_of_absent: "map_of (JOBS s) k = None \<Longrightarrow> status_of s k = None"
  by (simp add: status_of_def)

lemma status_of_present: "status_of s k = Some v \<Longrightarrow> \<exists>j. map_of (JOBS s) k = Some j"
  by (auto simp: status_of_def split: option.splits)

text \<open>One step of a thread whose position agrees with the registry.\<close>

lemma pipeline_step_in_step:
  assumes "in_step s t"
  shows "\<exists>pc' j'. fst (pipeline_step cfg env t s) = t\<lparr>pc := pc'\<rparr>
          \<and> (JOBS (snd (pipeline_step cfg env t s)) = JOBS s \<and> pc' = pc t
               \<or> JOBS (snd (pipeline_step cfg env t s)) = AList.update (arg_job_id t) j' (JOBS s)
                 \<and> trans_ok (status_of s (arg_job_id t)) (map_of j' ''status'')
                 \<and> (pc' = ImageGen \<and> map_of j' ''status'' = Some (VStr ''image'')
                      \<or> pc' = VideoGen \<and> map_of j' ''status'' = Some (VStr ''video'')
                      \<or> pc' = Finished \<and> (map_of j' ''status'' = Some (VStr ''completed'')
                            \<or> map_of j' ''status'' = Some (VStr ''failed''))))"
proof (cases "pc t")
  case Registering
  with assms have "status_of s (arg_job_id t) = None"
    by (simp add: in_step_def status_of_absent)
  with Registering show ?thesis
    by (intro exI [of _ ImageGen] exI [of _ "initial_job (arg_phone t) (started_time env)"])
       (simp add: pipeline_step_eq initial_job_def trans_ok_def)
next
  case ImageGen
  with assms have st: "status_of s (arg_job_id t) = Some (VStr ''image'')"
    by (simp add: in_step_def)
  then obtain j where j: "map_of (JOBS s) (arg_job_id t) = Some j"
    by (blast dest: status_of_present)
  show ?thesis
  proof (cases "image_failure env")
    case (Some e)
    with ImageGen st show ?thesis
      by (intro exI [of _ Finished] exI [of _ "failed_job e (arg_phone t) (finished_time env)"])
         (simp add: pipeline_step_eq exit_failed_eq failed_job_def trans_ok_def)
  next
    case None
    with ImageGen st j show ?thesis
      by (intro exI [of _ VideoGen] exI [of _ "AList.update ''status'' (VStr ''video'') j"])
         (simp add: pipeline_step_eq trans_ok_def AList.update_conv')
  qed
next
  case VideoGen
  with assms have st: "status_of s (arg_job_id t) = Some (VStr ''video'')"
    by (simp add: in_step_def)
  then obtain j where j: "map_of (JOBS s) (arg_job_id t) = Some j"
    by (blast dest: status_of_present)
  show ?thesis
  proof (cases "video_failure env")
    case (Some e)
    with VideoGen st show ?thesis
      by (intro exI [of _ Finished] exI [of _ "failed_job e (arg_phone t) (finished_time env)"])
         (simp add: pipeline_step_eq exit_failed_eq failed_job_def trans_ok_def)
  next
    case None
    with VideoGen st j show ?thesis
      by (intro exI [of _ Finished]
            exI [of _ "set_fields (completed_fields cfg env (arg_job_id t)) j"])
         (simp add: pipeline_step_eq trans_ok_def set_fields_completed)
  qed
next
  case Finished
  then show ?thesis
    by (intro exI [of _ Finished] exI [of _ "[]"]) (simp add: pipeline_step_eq)
qed

lemma in_step_registry:
  "map_of (JOBS s') (arg_job_id t) = map_of (JOBS s) (arg_job_id t) \<Longrightarrow>
     in_step s' t = in_step s t"
  by (simp add: in_step_def status_of_def split: pc.splits)

lemma in_step_same: "JOBS s' = JOBS s \<Longrightarrow> in_step s' t = in_step s t"
  by (rule in_step_registry) simp

lemma consistent_registry:
  assumes "JOBS s' = JOBS s" and "threads s' = threads s"
  shows "consistent s' = consistent s"
proof -
  have "\<And>t. in_step s' t = in_step s t"
    using assms(1) by (rule in_step_same)
  with assms show ?thesis by (simp add: consistent_def)
qed

lemma status_of_registry: "JOBS s' = JOBS s \<Longrightarrow> status_of s' k = status_of s k"
  by (simp add: status_of_def)

lemma trans_ok_refl [simp]: "trans_ok a a"
  by (simp add: trans_ok_def)

lemma create_job_threads_cases:
  "threads (snd (create_job cfg uuid4 img age_group phone s)) = threads s
   \<or> threads (snd (create_job cfg uuid4 img age_group phone s))
       = threads s @ [new_task uuid4 (upload_path_of cfg uuid4 img) age_group phone]"
  by (simp add: create_job_def Let_def split: prod.splits)

lemma submit_consistent:
  assumes "consistent s" and "uuid4 \<notin> set (map arg_job_id (threads s))"
  shows "consistent (snd (create_job cfg uuid4 img age_group phone s))"
proof -
  let ?s' = "snd (create_job cfg uuid4 img age_group phone s)"
  have j: "JOBS ?s' = JOBS s" by (rule create_job_registry)
  from create_job_threads_cases [of cfg uuid4 img age_group phone s] show ?thesis
  proof
    assume "threads ?s' = threads s"
    with j have "consistent ?s' = consistent s" by (rule consistent_registry)
    with assms(1) show ?thesis by simp
  next
    assume th: "threads ?s' = threads s @ [new_task uuid4 (upload_path_of cfg uuid4 img) age_group phone]"
    from assms have absent: "map_of (JOBS s) uuid4 = None"
      by (auto simp: consistent_def)
    have "in_step ?s' (new_task uuid4 (upload_path_of cfg uuid4 img) age_group phone)"
      using absent j by (simp add: in_step_def)
    moreover have "\<forall>t \<in> set (threads s). in_step ?s' t"
      using assms(1) in_step_same [OF j] by (simp add: consistent_def)
    ultimately show ?thesis
      using assms th j by (auto simp: consistent_def)
  qed
qed

lemma step_consistent:
  assumes c: "consistent s" and i: "i < length (threads s)"
  shows "consistent (exec cfg (Step i env) s)
       \<and> (\<forall>k. trans_ok (status_of s k) (status_of (exec cfg (Step i env) s) k))"
proof -
  let ?t = "threads s ! i"
  let ?k = "arg_job_id ?t"
  obtain t' s' where ps: "pipeline_step cfg env ?t s = (t', s')"
    by (cases "pipeline_step cfg env ?t s")
  from c i have ins: "in_step s ?t" by (simp add: consistent_def)
  from pipeline_step_threads [of cfg env ?t s] ps have th: "threads s' = threads s" by simp
  let ?s'' = "s'\<lparr>threads := (threads s)[i := t']\<rparr>"
  have ex: "exec cfg (Step i env) s = ?s''" using i ps th by simp
  from pipeline_step_in_step [OF ins, of cfg env] ps obtain pc' j' where
    t': "t' = ?t\<lparr>pc := pc'\<rparr>"
    and eff: "JOBS s' = JOBS s \<and> pc' = pc ?t
              \<or> JOBS s' = AList.update ?k j' (JOBS s)
                \<and> trans_ok (status_of s ?k) (map_of j' ''status'')
                \<and> (pc' = ImageGen \<and> map_of j' ''status'' = Some (VStr ''image'')
                     \<or> pc' = VideoGen \<and> map_of j' ''status'' = Some (VStr ''video'')
                     \<or> pc' = Finished \<and> (map_of j' ''status'' = Some (VStr ''completed'')
                           \<or> map_of j' ''status'' = Some (VStr ''failed'')))"
    by auto
  have ids: "map arg_job_id ((threads s)[i := t']) = map arg_job_id (threads s)"
    using i t' by (simp add: map_update list_update_same_conv)
  have other: "\<And>j. j < length (threads s) \<Longrightarrow> j \<noteq> i \<Longrightarrow> arg_job_id (threads s ! j) \<noteq> ?k"
  proof -
    fix j assume "j < length (threads s)" "j \<noteq> i"
    moreover from c have "distinct (map arg_job_id (threads s))"
      by (simp add: consistent_def)
    ultimately show "arg_job_id (threads s ! j) \<noteq> ?k"
      using i nth_eq_iff_index_eq [of "map arg_job_id (threads s)" j i] by simp
  qed
  have kin: "?k \<in> set (map arg_job_id (threads s))" using i by simp
  from eff show ?thesis
  proof
    assume same: "JOBS s' = JOBS s \<and> pc' = pc ?t"
    with t' have "t' = ?t" by simp
    then have "(threads s)[i := t'] = threads s" by simp
    moreover from same have "JOBS ?s'' = JOBS s" by simp
    ultimately have "consistent ?s'' = consistent s"
      by (intro consistent_registry) simp_all
    with c have "consistent ?s''" by simp
    moreover have "\<forall>k. trans_ok (status_of s k) (status_of ?s'' k)"
      using same by (simp add: status_of_def)
    ultimately show ?thesis by (simp only: ex) simp
  next
    assume upd: "JOBS s' = AList.update ?k j' (JOBS s)
                \<and> trans_ok (status_of s ?k) (map_of j' ''status'')
                \<and> (pc' = ImageGen \<and> map_of j' ''status'' = Some (VStr ''image'')
                     \<or> pc' = VideoGen \<and> map_of j' ''status'' = Some (VStr ''video'')
                     \<or> pc' = Finished \<and> (map_of j' ''status'' = Some (VStr ''completed'')
                           \<or> map_of j' ''status'' = Some (VStr ''failed'')))"
    then have J: "JOBS ?s'' = AList.update ?k j' (JOBS s)" by simp
    have stk: "status_of ?s'' ?k = map_of j' ''status''"
      using J by (simp add: status_of_def AList.update_conv')
    have sto: "\<And>k. k \<noteq> ?k \<Longrightarrow> map_of (JOBS ?s'') k = map_of (JOBS s) k"
      using J by (simp add: AList.update_conv')
    have d: "distinct (map arg_job_id (threads ?s''))"
      using c ids by (simp add: consistent_def)
    have dom: "\<forall>k. map_of (JOBS ?s'') k \<noteq> None \<longrightarrow> k \<in> set (map arg_job_id (threads ?s''))"
    proof (intro allI impI)
      fix k assume "map_of (JOBS ?s'') k \<noteq> None"
      then show "k \<in> set (map arg_job_id (threads ?s''))"
        using c kin ids sto [of k] by (cases "k = ?k") (auto simp: consistent_def)
    qed
    have new: "in_step ?s'' t'"
      using upd t' stk by (auto simp: in_step_def)
    have all: "\<forall>u \<in> set (threads ?s''). in_step ?s'' u"
    proof
      fix u assume "u \<in> set (threads ?s'')"
      then obtain j where j: "j < length (threads s)" "u = (threads s)[i := t'] ! j"
        by (auto simp: in_set_conv_nth)
      show "in_step ?s'' u"
      proof (cases "j = i")
        case True
        with j new show ?thesis by simp
      next
        case False
        with j have u: "u = threads s ! j" by simp
        with other [OF j(1) False] have ne: "arg_job_id u \<noteq> ?k" by simp
        from c j(1) u have "in_step s u" by (simp add: consistent_def)
        moreover have "in_step ?s'' u = in_step s u"
          by (rule in_step_registry) (rule sto [OF ne])
        ultimately show ?thesis by simp
      qed
    qed
    have tr: "\<forall>k. trans_ok (status_of s k) (status_of ?s'' k)"
    proof
      fix k show "trans_ok (status_of s k) (status_of ?s'' k)"
      proof (cases "k = ?k")
        case True
        with upd stk show ?thesis by simp
      next
        case False
        from sto [OF False] have "status_of ?s'' k = status_of s k"
          by (simp add: status_of_def)
        then show ?thesis by simp
      qed
    qed
    from d dom all have "consistent ?s''" by (simp add: consistent_def)
    with tr show ?thesis by (simp only: ex) simp
  qed
qed

lemma fresh_ids_Cons:
  "fresh_ids cfg (ev # evs) s = (fresh_ids cfg [ev] s \<and> fresh_ids cfg evs (exec cfg ev s))"
  by (cases ev) simp_all

lemma exec_consistent:
  assumes "consistent s" and "fresh_ids cfg [ev] s"
  shows "consistent (exec cfg ev s)
       \<and> (\<forall>k. trans_ok (status_of s k) (status_of (exec cfg ev s) k))"
proof (cases ev)
  case (Submit uuid4 img age_group phone)
  with assms have "consistent (exec cfg ev s)"
    by (simp add: submit_consistent)
  moreover have "\<forall>k. status_of (exec cfg ev s) k = status_of s k"
    using Submit by (simp add: status_of_def create_job_registry)
  ultimately show ?thesis by simp
next
  case (Step i env)
  show ?thesis
  proof (cases "i < length (threads s)")
    case True
    from step_consistent [OF assms(1) True, of cfg env] Step show ?thesis by simp
  next
    case False
    with Step assms(1) show ?thesis by simp
  qed
next
  case (Poll job_id)
  then have e: "JOBS (exec cfg ev s) = JOBS s" "threads (exec cfg ev s) = threads s"
    by simp_all
  from e have "consistent (exec cfg ev s) = consistent s" by (rule consistent_registry)
  moreover have "\<And>k. status_of (exec cfg ev s) k = status_of s k"
    using e(1) by (rule status_of_registry)
  ultimately show ?thesis using assms(1) by simp
next
  case (QR job_id)
  then have e: "JOBS (exec cfg ev s) = JOBS s" "threads (exec cfg ev s) = threads s"
    by simp_all
  from e have "consistent (exec cfg ev s) = consistent s" by (rule consistent_registry)
  moreover have "\<And>k. status_of (exec cfg ev s) k = status_of s k"
    using e(1) by (rule status_of_registry)
  ultimately show ?thesis using assms(1) by simp
next
  case (Health now hb)
  then have e: "JOBS (exec cfg ev s) = JOBS s" "threads (exec cfg ev s) = threads s"
    by simp_all
  from e have "consistent (exec cfg ev s) = consistent s" by (rule consistent_registry)
  moreover have "\<And>k. status_of (exec cfg ev s) k = status_of s k"
    using e(1) by (rule status_of_registry)
  ultimately show ?thesis using assms(1) by simp
qed

lemma hd_states [simp]: "hd (states cfg evs s) = s"
  by (cases evs) simp_all

lemma states_nonempty [simp]: "states cfg evs s \<noteq> []"
  by (cases evs) simp_all

lemma states_follow_machine:
  "consistent s \<Longrightarrow> fresh_ids cfg evs s \<Longrightarrow>
     successively trans_ok (map (\<lambda>s. status_of s job_id) (states cfg evs s))"
proof (induction evs arbitrary: s)
  case Nil
  then show ?case by simp
next
  case (Cons ev evs)
  from Cons.prems(2) have f: "fresh_ids cfg [ev] s" and fs: "fresh_ids cfg evs (exec cfg ev s)"
    using fresh_ids_Cons [of cfg ev evs s] by simp_all
  from exec_consistent [OF Cons.prems(1) f]
  have c: "consistent (exec cfg ev s)"
    and t: "trans_ok (status_of s job_id) (status_of (exec cfg ev s) job_id)"
    by simp_all
  from Cons.IH [OF c fs] t show ?case
    by (simp add: successively_Cons hd_map)
qed

lemma consistent_init: "consistent init"
  by (simp add: consistent_def init_def)

text \<open>
  C2. In every run of the process in which each submission gets an identifier that no
  thread started earlier has (as \<^verbatim>\<open>uuid4\<close> gives), the status stored for any job
  changes from one state of the process to the next only along the state machine:
  nothing, then \<^verbatim>\<open>image\<close>, then \<^verbatim>\<open>video\<close>, then \<^verbatim>\<open>completed\<close>, with \<^verbatim>\<open>failed\<close>
  reachable from \<^verbatim>\<open>image\<close> and from \<^verbatim>\<open>video\<close>; no state is skipped, and a status
  \<^verbatim>\<open>completed\<close> or \<^verbatim>\<open>failed\<close> never changes again.
\<close>

theorem status_sequence_follows_machine:
  assumes "fresh_ids cfg evs init"
  shows "successively trans_ok (map (\<lambda>s. status_of s job_id) (states cfg evs init))"
  using consistent_init assms by (rule states_follow_machine)

lemma full_run_statuses:
  "map (\<lambda>s. status_of s ''j1'') (states cfg_local full_run init)
     = [None, None, Some (VStr ''image''), Some (VStr ''video''), Some (VStr ''completed'')]"
  apply (simp add: full_run_def create_job_valid [OF png_upload_valid] del: exec.simps(2))
  apply (simp add: pipeline_step_eq init_def image_failure_def video_failure_def env_ok_def
        initial_job_def completed_fields_def new_task_def put_def cleanup_def status_of_def
        AList.update_conv')
  done

lemma failing_run_statuses:
  "map (\<lambda>s. status_of s ''j1'') (states cfg_local failing_run init)
     = [None, None, Some (VStr ''image''), Some (VStr ''failed'')]"
  apply (simp add: failing_run_def create_job_valid [OF png_upload_valid] del: exec.simps(2))
  apply (simp add: pipeline_step_eq exit_failed_eq init_def image_failure_def env_ok_def
        env_image_fails_def initial_job_def failed_job_def new_task_def put_def cleanup_def
        status_of_def AList.update_conv')
  done

theorem status_sequence_follows_machine_witness:
  "fresh_ids cfg_local full_run init
   \<and> successively trans_ok
        [None, None, Some (VStr ''image''), Some (VStr ''video''), Some (VStr ''completed'')]
   \<and> fresh_ids cfg_local failing_run init
   \<and> successively trans_ok [None, None, Some (VStr ''image''), Some (VStr ''failed'')]"
proof -
  have f: "fresh_ids cfg_local full_run init"
    by (simp add: full_run_def init_def)
  have g: "fresh_ids cfg_local failing_run init"
    by (simp add: failing_run_def init_def)
  from status_sequence_follows_machine [OF f, of "''j1''"]
       status_sequence_follows_machine [OF g, of "''j1''"] f g
  show ?thesis by (simp only: full_run_statuses failing_run_statuses)
qed

section \<open>The quiz questions endpoint\<close>

lemma sanitize_values:
  "sanitize q = Inr c \<Longrightarrow>
     \<exists>i qu os. map_of q ''id'' = Some i \<and> map_of q ''question'' = Some qu
       \<and> map_of q ''options'' = Some os
       \<and> c = [(''id'', i), (''question'', qu), (''options'', os)]"
  by (auto simp: sanitize_def split: option.splits)

lemma sanitize_all_Inr:
  "sanitize_all qs = Inr cs \<Longrightarrow> list_all2 (\<lambda>q c. sanitize q = Inr c) qs cs"
  by (induction qs arbitrary: cs) (auto split: sum.splits)

text \<open>
  C3 (as amended). When \<^verbatim>\<open>get_questions\<close> answers, the list \<open>questions\<close> of the answer
  has one entry per selected question, in the same order, and each entry is exactly the
  three fields \<^verbatim>\<open>id\<close>, \<^verbatim>\<open>question\<close> and \<^verbatim>\<open>options\<close> with the values they have in
  that question; the field \<open>key\<close> of the same answer is the selected question list
  itself, unchanged, with every field the question bank gave.
\<close>

theorem get_questions_visible_fields:
  assumes "get_questions (Returns qs) = Inr r"
  shows "key r = qs
       \<and> list_all2
            (\<lambda>q c. \<exists>i qu os. map_of q ''id'' = Some i \<and> map_of q ''question'' = Some qu
               \<and> map_of q ''options'' = Some os
               \<and> c = [(''id'', i), (''question'', qu), (''options'', os)])
            qs (questions r)"
proof -
  from assms obtain cs
    where cs: "sanitize_all qs = Inr cs" and r: "r = \<lparr>questions = cs, key = qs\<rparr>"
    by (auto simp: get_questions_def split: sum.splits)
  from sanitize_all_Inr [OF cs] have "list_all2 (\<lambda>q c. sanitize q = Inr c) qs cs" .
  then have "list_all2
            (\<lambda>q c. \<exists>i qu os. map_of q ''id'' = Some i \<and> map_of q ''question'' = Some qu
               \<and> map_of q ''options'' = Some os
               \<and> c = [(''id'', i), (''question'', qu), (''options'', os)]) qs cs"
    by (rule list_all2_mono) (rule sanitize_values)
  with r show ?thesis by simp
qed

theorem get_questions_visible_fields_witness:
  "get_questions (Returns [quiz_question])
     = Inr \<lparr>questions = [[(''id'', [''1'']), (''question'', [''Capital of the UAE?'']),
                          (''options'', [''Abu Dhabi'', ''Dubai''])]],
            key = [quiz_question]\<rparr>
   \<and> list_all2
        (\<lambda>q c. \<exists>i qu os. map_of q ''id'' = Some i \<and> map_of q ''question'' = Some qu
           \<and> map_of q ''options'' = Some os
           \<and> c = [(''id'', i), (''question'', qu), (''options'', os)])
        [quiz_question]
        [[(''id'', [''1'']), (''question'', [''Capital of the UAE?'']),
          (''options'', [''Abu Dhabi'', ''Dubai''])]]"
proof -
  have h: "get_questions (Returns [quiz_question])
     = Inr \<lparr>questions = [[(''id'', [''1'']), (''question'', [''Capital of the UAE?'']),
                          (''options'', [''Abu Dhabi'', ''Dubai''])]],
            key = [quiz_question]\<rparr>"
    by (simp add: get_questions_def sanitize_def quiz_question_def)
  from get_questions_visible_fields [OF h] h show ?thesis by simp
qed

text \<open>
  C3 as stated fails: for a question that carries its answer, the answer of
  \<^verbatim>\<open>get_questions\<close> holds the field \<^verbatim>\<open>answer\<close> under \<open>key\<close>.
\<close>

theorem get_questions_key_counterexample:
  "get_questions (Returns
      [[(''id'', [''1'']), (''question'', [''Capital of the UAE?'']),
        (''options'', [''Abu Dhabi'', ''Dubai'']), (''answer'', [''Abu Dhabi''])]])
   = Inr \<lparr>questions = [[(''id'', [''1'']), (''question'', [''Capital of the UAE?'']),
                        (''options'', [''Abu Dhabi'', ''Dubai''])]],
          key = [[(''id'', [''1'']), (''question'', [''Capital of the UAE?'']),
                  (''options'', [''Abu Dhabi'', ''Dubai'']), (''answer'', [''Abu Dhabi''])]]\<rparr>"
  by (simp add: get_questions_def sanitize_def)

section \<open>The QR endpoint\<close>

lemma job_qr_fst:
  "fst (job_qr g job_id s) =
     (case map_of (JOBS s) job_id of
        None \<Rightarrow> Inl (HTTPException 404 ''QR not available'')
      | Some j \<Rightarrow>
          if j = [] \<or> dict_get j ''status'' \<noteq> VStr ''completed''
             \<or> \<not> truthy (dict_get j ''video_url'')
          then Inl (HTTPException 404 ''QR not available'')
          else Inr \<lparr>png_of = g (dict_get j ''video_url''), media_type = ''image/png'',
                    headers = [(''Cache-Control'', ''public, max-age=3600'')]\<rparr>)"
  by (simp add: job_qr_def jobs_get_def acquire_def release_def touch_def split: option.splits)

text \<open>
  C6. \<^verbatim>\<open>job_qr\<close> answers 404 exactly when the job is not in the registry, or its status
  is not \<^verbatim>\<open>completed\<close>, or its video URL is \<^verbatim>\<open>None\<close> or empty. In every other case it
  answers with the PNG of the QR code made from the job's video URL, media type
  \<^verbatim>\<open>image/png\<close>, and the header \<^verbatim>\<open>Cache-Control: public, max-age=3600\<close> (3600 seconds
  are one hour).
\<close>

theorem job_qr_404_iff:
  "((\<exists>d. fst (job_qr g job_id s) = Inl (HTTPException 404 d)) \<longleftrightarrow>
      (map_of (JOBS s) job_id = None
       \<or> (\<exists>j. map_of (JOBS s) job_id = Some j \<and>
               (dict_get j ''status'' \<noteq> VStr ''completed''
                \<or> \<not> truthy (dict_get j ''video_url'')))))
   \<and> ((\<forall>d. fst (job_qr g job_id s) \<noteq> Inl (HTTPException 404 d)) \<longrightarrow>
        (\<exists>j. map_of (JOBS s) job_id = Some j \<and>
          fst (job_qr g job_id s) =
            Inr \<lparr>png_of = g (dict_get j ''video_url''), media_type = ''image/png'',
                  headers = [(''Cache-Control'', ''public, max-age=3600'')]\<rparr>))"
  by (auto simp: job_qr_fst dict_get_def split: option.splits)

theorem job_qr_404_iff_witness:
  "fst (job_qr (\<lambda>v. v) ''j1'' completed_state)
     = Inr \<lparr>png_of = VStr ''/media/videos/j1.mp4'', media_type = ''image/png'',
            headers = [(''Cache-Control'', ''public, max-age=3600'')]\<rparr>
   \<and> fst (job_qr (\<lambda>v. v) ''j2'' completed_state) = Inl (HTTPException 404 ''QR not available'')
   \<and> (3600::nat) = 60 * 60"
  using job_qr_404_iff [of "\<lambda>v. v" "''j1''" completed_state]
        job_qr_404_iff [of "\<lambda>v. v" "''j2''" completed_state]
  by (simp add: job_qr_fst completed_state_def init_def dict_get_def)

end
